theory Spec2Isabelle
  imports Main
begin

section \<open>Python strings\<close>

text \<open>
  A Python \<open>str\<close> is modelled as a \<^typ>\<open>string\<close>, one \<^typ>\<open>char\<close> per code point, so the
  model covers the code points 0 to 255. On that range \<open>str.lower\<close>, \<open>str.strip\<close>,
  \<open>str.startswith\<close>, \<open>in\<close>, \<open>str.replace\<close> and \<open>str.split\<close> are as in CPython 3.
  \<open>str.title\<close> is as in CPython wherever its result is again such a string: the title-case
  forms of the code points 181 and 255 lie beyond code point 255, and \<open>py_title\<close> returns
  \<open>None\<close> for a string that has one of them at the start of a word.
\<close>

definition py_isspace :: "char \<Rightarrow> bool" where
  "py_isspace c =
     (let n = (of_char c :: nat)
      in (9 \<le> n \<and> n \<le> 13) \<or> (28 \<le> n \<and> n \<le> 32) \<or> n = 133 \<or> n = 160)"

definition py_isupper :: "char \<Rightarrow> bool" where
  "py_isupper c =
     (let n = (of_char c :: nat)
      in (65 \<le> n \<and> n \<le> 90) \<or> (192 \<le> n \<and> n \<le> 222 \<and> n \<noteq> 215))"

definition lower_char :: "char \<Rightarrow> char" where
  "lower_char c = (if py_isupper c then char_of (of_char c + (32::nat)) else c)"

definition has_upper :: "char \<Rightarrow> bool" where
  "has_upper c =
     (let n = (of_char c :: nat)
      in (97 \<le> n \<and> n \<le> 122) \<or> (224 \<le> n \<and> n \<le> 254 \<and> n \<noteq> 247))"

text \<open>
  The title-case form of one character: a string, since that of code point 223 is \<open>Ss\<close>;
  \<open>None\<close> for the code points 181 and 255, whose forms (code points 924 and 376) no
  \<^typ>\<open>char\<close> holds.
\<close>

definition title_char :: "char \<Rightarrow> string option" where
  "title_char c =
     (let n = (of_char c :: nat)
      in if n = 181 \<or> n = 255 then None
         else if n = 223 then Some ''Ss''
         else if has_upper c then Some [char_of (n - 32)]
         else Some [c])"

definition py_iscased :: "char \<Rightarrow> bool" where
  "py_iscased c =
     (let n = (of_char c :: nat)
      in (65 \<le> n \<and> n \<le> 90) \<or> (97 \<le> n \<and> n \<le> 122) \<or> n = 170 \<or> n = 181 \<or> n = 186
         \<or> (192 \<le> n \<and> n \<noteq> 215 \<and> n \<noteq> 247))"

definition py_lower :: "string \<Rightarrow> string" where
  "py_lower s = map lower_char s"

definition py_strip :: "string \<Rightarrow> string" where
  "py_strip s = rev (dropWhile py_isspace (rev (dropWhile py_isspace s)))"

text \<open>\<open>title_from prev s\<close>: \<open>prev\<close> tells whether the previous character was cased.\<close>

fun title_from :: "bool \<Rightarrow> string \<Rightarrow> string option" where
  "title_from prev [] = Some []"
| "title_from prev (c # cs) =
     (if py_iscased c
      then (case (if prev then Some [lower_char c] else title_char c) of
              None \<Rightarrow> None
            | Some t \<Rightarrow> map_option (\<lambda>ts. t @ ts) (title_from True cs))
      else map_option (\<lambda>ts. c # ts) (title_from False cs))"

definition py_title :: "string \<Rightarrow> string option" where
  "py_title s = title_from False s"

text \<open>\<open>py_startswith s p\<close> is \<open>s.startswith(p)\<close>; \<open>py_in sub s\<close> is \<open>sub in s\<close>.\<close>

fun py_startswith :: "string \<Rightarrow> string \<Rightarrow> bool" where
  "py_startswith s [] = True"
| "py_startswith [] (p # ps) = False"
| "py_startswith (c # cs) (p # ps) = (c = p \<and> py_startswith cs ps)"

fun py_in :: "string \<Rightarrow> string \<Rightarrow> bool" where
  "py_in sub [] = (sub = [])"
| "py_in sub (c # cs) = (py_startswith (c # cs) sub \<or> py_in sub cs)"

text \<open>\<open>py_replace old new s\<close> is \<open>s.replace(old, new)\<close> for a one-character \<open>old\<close>.\<close>

definition py_replace :: "char \<Rightarrow> string \<Rightarrow> string \<Rightarrow> string" where
  "py_replace old new s = concat (map (\<lambda>c. if c = old then new else [c]) s)"

text \<open>\<open>last_segment sep s\<close> is \<open>s.split(sep)[-1]\<close>: what follows the last separator.\<close>

definition last_segment :: "char \<Rightarrow> string \<Rightarrow> string" where
  "last_segment sep s = rev (takeWhile (\<lambda>c. c \<noteq> sep) (rev s))"

text \<open>\<open>before_first sep s\<close> is \<open>s.split(sep, 1)[0]\<close>: what precedes the first separator.\<close>

definition before_first :: "char \<Rightarrow> string \<Rightarrow> string" where
  "before_first sep s = takeWhile (\<lambda>c. c \<noteq> sep) s"

text \<open>\<open>before_last sep s\<close> is \<open>s[:s.rfind(sep)]\<close> for an \<open>s\<close> that contains \<open>sep\<close>.\<close>

definition before_last :: "char \<Rightarrow> string \<Rightarrow> string" where
  "before_last sep s = rev (drop 1 (dropWhile (\<lambda>c. c \<noteq> sep) (rev s)))"

section \<open>Telemetry values\<close>

text \<open>
  The three telemetry endpoints answer with JSON objects. A number is only ever tested
  for being zero or for its type, so \<open>JNum\<close> carries an integer.
\<close>

datatype json =
    JNull
  | JBool bool
  | JNum int
  | JStr string
  | JArr "json list"
  | JObj "(string \<times> json) list"

type_synonym dict = "(string \<times> json) list"

fun truthy :: "json \<Rightarrow> bool" where
  "truthy JNull = False"
| "truthy (JBool b) = b"
| "truthy (JNum n) = (n \<noteq> 0)"
| "truthy (JStr s) = (s \<noteq> [])"
| "truthy (JArr xs) = (xs \<noteq> [])"
| "truthy (JObj kvs) = (kvs \<noteq> [])"

text \<open>Truth value of an \<open>Optional[Dict]\<close>: \<open>None\<close> and the empty dictionary are false.\<close>

fun dict_truthy :: "dict option \<Rightarrow> bool" where
  "dict_truthy None = False"
| "dict_truthy (Some d) = (d \<noteq> [])"

fun opt_truthy :: "json option \<Rightarrow> bool" where
  "opt_truthy None = False"
| "opt_truthy (Some v) = truthy v"

text \<open>
  What ends a tick before its last step: one of three Python exceptions, or the mark
  \<open>NotLatin1\<close>, which is no exception: the tick goes on with a string that has a code point
  beyond 255, and the model follows it no further.
\<close>

datatype py_error = AttributeError | TypeError | ValueError | NotLatin1

section \<open>Fetching one endpoint: \<open>get_data\<close>\<close>

text \<open>
  What \<open>requests.get\<close>, \<open>raise_for_status\<close> and \<open>response.json\<close> do is the environment's
  choice: each either raises or returns. \<open>KeyboardInterrupt\<close> stands for the exceptions
  that are not subclasses of \<open>Exception\<close>.
\<close>

datatype exn =
    Timeout
  | ConnectionError
  | HTTPError
  | JSONDecodeError
  | OtherException string
  | KeyboardInterrupt

fun is_Exception :: "exn \<Rightarrow> bool" where
  "is_Exception KeyboardInterrupt = False"
| "is_Exception _ = True"

record 'a response =
  raise_for_status :: "exn option"
  json_body :: "exn + 'a"

definition WAR_THUNDER_API_URL :: string where
  "WAR_THUNDER_API_URL = ''http://127.0.0.1:8111''"

definition ENDPOINTS :: "(string \<times> string) list" where
  "ENDPOINTS =
     [(''state'', WAR_THUNDER_API_URL @ ''/state''),
      (''indicators'', WAR_THUNDER_API_URL @ ''/indicators''),
      (''mission'', WAR_THUNDER_API_URL @ ''/mission.json'')]"

text \<open>The body of the \<open>try\<close> block: the first step that raises ends it.\<close>

definition get_data_try :: "(string \<Rightarrow> exn + 'a response) \<Rightarrow> string \<Rightarrow> exn + 'a" where
  "get_data_try requests_get url =
     (case requests_get url of
        Inl e \<Rightarrow> Inl e
      | Inr response \<Rightarrow>
          (case raise_for_status response of
             Some e \<Rightarrow> Inl e
           | None \<Rightarrow> json_body response))"

text \<open>
  The \<open>except\<close> clause names four classes and then \<open>Exception\<close>; an exception it does not
  match propagates to the caller (\<open>Inl\<close>).
\<close>

definition caught :: "exn \<Rightarrow> bool" where
  "caught e = (e = Timeout \<or> e = ConnectionError \<or> e = HTTPError \<or> e = JSONDecodeError
               \<or> is_Exception e)"

definition get_data :: "(string \<Rightarrow> exn + 'a response) \<Rightarrow> string \<Rightarrow> exn + 'a option" where
  "get_data requests_get endpoint_name =
     (case map_of ENDPOINTS endpoint_name of
        None \<Rightarrow> Inr None
      | Some url \<Rightarrow>
          if url = [] then Inr None
          else (case get_data_try requests_get url of
                  Inr v \<Rightarrow> Inr (Some v)
                | Inl e \<Rightarrow> if caught e then Inr None else Inl e))"

section \<open>Vehicle identifier: \<open>get_raw_vehicle_id\<close>\<close>

definition dict_get :: "dict option \<Rightarrow> string \<Rightarrow> json option" where
  "dict_get d k = (case d of None \<Rightarrow> None | Some kvs \<Rightarrow> map_of kvs k)"

definition dict_get_default :: "dict option \<Rightarrow> string \<Rightarrow> json \<Rightarrow> json" where
  "dict_get_default d k dflt = (case dict_get d k of None \<Rightarrow> dflt | Some v \<Rightarrow> v)"

text \<open>The \<open>if\<close>/\<open>elif\<close> that picks the raw id: the state's name, else the indicators' type.\<close>

definition select_raw_id :: "dict option \<Rightarrow> dict option \<Rightarrow> json option" where
  "select_raw_id state_data indicators_data =
     (if dict_truthy state_data \<and> dict_get state_data ''name'' \<noteq> None
      then dict_get state_data ''name''
      else if dict_truthy indicators_data \<and> dict_get indicators_data ''type'' \<noteq> None
      then dict_get indicators_data ''type''
      else None)"

text \<open>
  Returns \<open>(canonical_id, unfiltered_raw_id)\<close>. A raw id that is true but not a string has
  no \<open>lower\<close> method: \<open>AttributeError\<close>.
\<close>

definition get_raw_vehicle_id :: "dict option \<Rightarrow> dict option \<Rightarrow> py_error + (string \<times> string)" where
  "get_raw_vehicle_id state_data indicators_data =
     (let raw_id = select_raw_id state_data indicators_data
      in if \<not> opt_truthy raw_id \<or> raw_id = Some (JStr ''unknown_vehicle'')
            \<or> raw_id = Some (JStr ''Unknown Vehicle'')
         then Inr (''unknown_vehicle'', ''unknown_vehicle'')
         else (case raw_id of
                 Some (JStr s) \<Rightarrow>
                   (let unfiltered_raw_id = py_strip (py_lower s);
                        canonical_id =
                          (if CHR ''/'' \<in> set unfiltered_raw_id
                           then last_segment CHR ''/'' unfiltered_raw_id
                           else unfiltered_raw_id)
                    in Inr (canonical_id, unfiltered_raw_id))
               | _ \<Rightarrow> Inl AttributeError))"

definition get_wiki_url_from_id :: "string \<Rightarrow> string" where
  "get_wiki_url_from_id vehicle_id = ''https://wiki.warthunder.com/unit/'' @ vehicle_id"

definition get_default_display_name :: "string \<Rightarrow> string option" where
  "get_default_display_name raw_id =
     (if raw_id = ''unknown_vehicle'' then Some ''Unknown Vehicle''
      else map_option py_strip (py_title (py_replace CHR ''_'' '' '' raw_id)))"

section \<open>Status classification: \<open>get_status_message\<close>\<close>

text \<open>
  \<open>is_status_running or is_mission_enabled_or_valid\<close>, computed the same way in the
  classifier and in the polling loop.
\<close>

definition is_in_mission :: "dict option \<Rightarrow> bool" where
  "is_in_mission mission_data =
     (dict_truthy mission_data \<and>
      (dict_get mission_data ''status'' = Some (JStr ''running'')
       \<or> truthy (dict_get_default mission_data ''is_enabled'' (JBool False))
       \<or> (truthy (dict_get_default mission_data ''valid'' (JBool False))
           \<and> dict_get_default mission_data ''type'' (JStr ''mission'') \<noteq> JStr ''mission'')))"

text \<open>
  The mission type after the inference step: the reported type, or, when that is missing,
  false or \<open>'mission'\<close>, the type inferred from the prefix of the vehicle id.
\<close>

definition inferred_type :: "string \<Rightarrow> string" where
  "inferred_type unfiltered_raw_id =
     (if unfiltered_raw_id \<noteq> [] \<and> py_in ''tankmodels/'' unfiltered_raw_id
      then ''ground_battle''
      else if unfiltered_raw_id \<noteq> []
              \<and> (py_in ''shipmodels/'' unfiltered_raw_id \<or> py_in ''boat/'' unfiltered_raw_id)
      then ''naval_battle''
      else if unfiltered_raw_id \<noteq> ''unknown_vehicle''
      then ''air_battle''
      else ''Custom Battle'')"

definition infer_mission_type :: "json option \<Rightarrow> string \<Rightarrow> json" where
  "infer_mission_type mission_type_raw unfiltered_raw_id =
     (case mission_type_raw of
        None \<Rightarrow> JStr (inferred_type unfiltered_raw_id)
      | Some t \<Rightarrow>
          if \<not> truthy t \<or> t = JStr ''mission''
          then JStr (inferred_type unfiltered_raw_id)
          else t)"

definition action_text :: "string \<Rightarrow> string \<Rightarrow> string" where
  "action_text detected_vehicle unfiltered_raw_id =
     (if py_in ''tankmodels/'' unfiltered_raw_id then ''Driving a '' @ detected_vehicle
      else if py_in ''shipmodels/'' unfiltered_raw_id \<or> py_in ''boat/'' unfiltered_raw_id
      then ''Commanding the '' @ detected_vehicle
      else ''Piloting the '' @ detected_vehicle)"

text \<open>
  \<open>sub in v\<close> for a value that supports it: substring of a string, element of a list, key
  of a dictionary. On the other values Python raises \<open>TypeError\<close> (\<open>supports_in\<close> is false).
\<close>

fun supports_in :: "json \<Rightarrow> bool" where
  "supports_in (JStr s) = True"
| "supports_in (JArr xs) = True"
| "supports_in (JObj kvs) = True"
| "supports_in _ = False"

fun json_has :: "string \<Rightarrow> json \<Rightarrow> bool" where
  "json_has sub (JStr s) = py_in sub s"
| "json_has sub (JArr xs) = (JStr sub \<in> set xs)"
| "json_has sub (JObj kvs) = (sub \<in> fst ` set kvs)"
| "json_has sub _ = False"

text \<open>
  The (details, state) pair of the in-mission branch. The fallback calls \<open>replace\<close> on the
  mission type, which only a string has: \<open>AttributeError\<close> otherwise.
\<close>

definition mission_message :: "json \<Rightarrow> string \<Rightarrow> string \<Rightarrow> py_error + (string \<times> string)" where
  "mission_message mission_type action map_name_display =
     (if \<not> supports_in mission_type then Inl TypeError
      else if json_has ''ground_battle'' mission_type \<or> json_has ''ground_match'' mission_type
      then Inr (''In Ground Battle on '' @ map_name_display, action)
      else if json_has ''air_battle'' mission_type \<or> json_has ''air_match'' mission_type
      then Inr (''In Air Battle on '' @ map_name_display, action)
      else if json_has ''naval_battle'' mission_type
      then Inr (''In Naval Battle on '' @ map_name_display, action)
      else if json_has ''Custom Battle'' mission_type
      then Inr (''In Custom Battle on '' @ map_name_display, action)
      else (case mission_type of
              JStr t \<Rightarrow>
                (case py_title (py_replace CHR ''_'' '' '' t) of
                   None \<Rightarrow> Inl NotLatin1
                 | Some mission_type_display \<Rightarrow>
                     Inr (''In Battle: '' @ mission_type_display,
                          ''Map: '' @ map_name_display))
            | _ \<Rightarrow> Inl AttributeError))"

definition get_status_message ::
  "dict option \<Rightarrow> dict option \<Rightarrow> string \<Rightarrow> string \<Rightarrow> string \<Rightarrow> py_error + (string \<times> string)" where
  "get_status_message state_data mission_data detected_vehicle map_name unfiltered_raw_id =
     (if \<not> dict_truthy state_data then Inr (''Offline'', ''Waiting for game...'')
      else
        let vehicle_display =
              (if detected_vehicle \<noteq> ''Unknown Vehicle'' then detected_vehicle else ''Vehicle'')
        in if map_name = ''Hangar''
           then (if detected_vehicle \<noteq> ''Unknown Vehicle''
                 then Inr (''Idle in Hangar'', ''Inspecting '' @ vehicle_display)
                 else Inr (''In Main Menu/Hangar'', ''Waiting for vehicle selection''))
           else if is_in_mission mission_data
           then mission_message
                  (infer_mission_type (dict_get mission_data ''type'') unfiltered_raw_id)
                  (action_text detected_vehicle unfiltered_raw_id)
                  map_name
           else if detected_vehicle \<noteq> ''Unknown Vehicle''
           then Inr (''Idle in Hangar'', ''Inspecting '' @ vehicle_display)
           else Inr (''In Main Menu/Hangar'', ''Waiting for vehicle selection''))"

section \<open>Map identification\<close>

definition lookup_map_name :: "(string \<times> string) list \<Rightarrow> string option \<Rightarrow> string" where
  "lookup_map_name map_hashes sha256_hash =
     (case sha256_hash of
        None \<Rightarrow> ''Not in Mission''
      | Some h \<Rightarrow>
          if h = [] then ''Not in Mission''
          else (case map_of map_hashes h of
                  Some map_value \<Rightarrow>
                    if map_value \<noteq> [] then map_value else ''Unknown Map (Needs Update)''
                | None \<Rightarrow> ''Unknown Map (Hash: '' @ take 8 h @ ''...)''))"

definition is_url :: "string \<Rightarrow> bool" where
  "is_url s = (py_startswith s ''http://'' \<or> py_startswith s ''https://'')"

definition GITHUB_RAW_BASE_URL :: string where
  "GITHUB_RAW_BASE_URL =
     ''https://raw.githubusercontent.com/ajaniceman/WarThunderRPC/main/mapPictures/''"

definition MAP_IMAGE_EXTENSION :: string where
  "MAP_IMAGE_EXTENSION = ''.jpg''"

definition auto_generated_url :: string where
  "auto_generated_url =
     GITHUB_RAW_BASE_URL @ py_replace CHR '' '' ''_'' (py_lower ''unknown_map'')
       @ MAP_IMAGE_EXTENSION"

text \<open>\<open>d[k] = v\<close> on a dictionary kept in insertion order.\<close>

fun dict_set :: "'k \<Rightarrow> 'v \<Rightarrow> ('k \<times> 'v) list \<Rightarrow> ('k \<times> 'v) list" where
  "dict_set k v [] = [(k, v)]"
| "dict_set k v (p # ps) = (if fst p = k then (k, v) # ps else p # dict_set k v ps)"

text \<open>
  Step 3 of the loop. Returns the current map value, the table, and whether the hash was
  added to the table on this tick (in which case the configuration is saved).
\<close>

definition identify_map ::
  "(string \<times> string) list \<Rightarrow> string option \<Rightarrow> string \<times> (string \<times> string) list \<times> bool" where
  "identify_map map_hashes sha256_hash =
     (case sha256_hash of
        None \<Rightarrow> (''Not in Mission'', map_hashes, False)
      | Some h \<Rightarrow>
          if h = [] then (''Not in Mission'', map_hashes, False)
          else
            let current_map_value = lookup_map_name map_hashes sha256_hash
            in if map_of map_hashes h = None
               then (auto_generated_url, dict_set h auto_generated_url map_hashes, True)
               else (current_map_value, map_hashes, False))"

subsection \<open>Display name of a map value\<close>

text \<open>
  \<open>urlparse(url).path\<close> for a string that starts with \<open>http://\<close> or \<open>https://\<close>: tabs and
  line breaks are removed, the network location ends at the first of \<open>/ ? #\<close>, the
  fragment and the query are cut off, and the parameters after a \<open>;\<close> in the last segment
  are cut off. The library raises \<open>ValueError\<close> on a network location with one kind of
  square bracket only. On one with both kinds its verdict depends on its version: older
  versions accept them all, newer ones want an IPv6 or IPvFuture address between the
  brackets. That verdict is an input of the model: \<open>netloc_ok\<close>.
\<close>

definition urlparse_path :: "(string \<Rightarrow> bool) \<Rightarrow> string \<Rightarrow> py_error + string" where
  "urlparse_path netloc_ok s =
     (let url = filter (\<lambda>c. c \<noteq> CHR 0x09 \<and> c \<noteq> CHR 0x0D \<and> c \<noteq> CHR 0x0A) s;
          after_slashes = drop 2 (drop 1 (dropWhile (\<lambda>c. c \<noteq> CHR '':'') url));
          is_delim = (\<lambda>c. c = CHR ''/'' \<or> c = CHR ''?'' \<or> c = CHR ''#'');
          netloc = takeWhile (\<lambda>c. \<not> is_delim c) after_slashes;
          rest = dropWhile (\<lambda>c. \<not> is_delim c) after_slashes;
          path = before_first CHR ''?'' (before_first CHR ''#'' rest);
          seg = last_segment CHR ''/'' path
      in if (CHR ''['' \<in> set netloc \<and> CHR '']'' \<notin> set netloc)
            \<or> (CHR '']'' \<in> set netloc \<and> CHR ''['' \<notin> set netloc)
         then Inl ValueError
         else if CHR ''['' \<in> set netloc \<and> CHR '']'' \<in> set netloc \<and> \<not> netloc_ok netloc
         then Inl ValueError
         else Inr (take (length path - length seg) path @ before_first CHR '';'' seg))"

text \<open>\<open>os.path.basename\<close> and the root of \<open>os.path.splitext\<close>, with \<open>/\<close> as the separator.\<close>

definition basename :: "string \<Rightarrow> string" where
  "basename p = last_segment CHR ''/'' p"

definition splitext_root :: "string \<Rightarrow> string" where
  "splitext_root p =
     (if CHR ''.'' \<in> set p \<and> list_ex (\<lambda>c. c \<noteq> CHR ''.'') (before_last CHR ''.'' p)
      then before_last CHR ''.'' p
      else p)"

definition HANGAR_HASH :: string where
  "HANGAR_HASH = ''cfb99c04947c94c19d4c523c1e0fb3a2d71d403263fefcad5f4c4fc8485d07d0''"

fun str_opt_truthy :: "string option \<Rightarrow> bool" where
  "str_opt_truthy None = False"
| "str_opt_truthy (Some s) = (s \<noteq> [])"

text \<open>Step 5 of the loop. Returns \<open>(map_asset_key_or_url, map_name_display)\<close>.\<close>

definition map_display ::
  "(string \<Rightarrow> bool) \<Rightarrow> string \<Rightarrow> string option \<Rightarrow> py_error + (string \<times> string)" where
  "map_display netloc_ok current_map_value sha256_hash =
     (if is_url current_map_value
      then (case urlparse_path netloc_ok current_map_value of
              Inl e \<Rightarrow> Inl e
            | Inr path \<Rightarrow>
                (case py_title (py_replace CHR ''_'' '' '' (splitext_root (basename path))) of
                   None \<Rightarrow> Inl NotLatin1
                 | Some map_name_display \<Rightarrow>
                     Inr (current_map_value,
                          if map_name_display = ''Unknown Map''
                          then ''Unknown Map (Upload Pending)''
                          else map_name_display)))
      else if current_map_value \<in> set [''Unknown Map (Needs Update)'',
                                        ''Unknown Map (Just Added)'', ''Not in Mission'']
      then Inr (current_map_value,
                if current_map_value = ''Not in Mission'' \<and> str_opt_truthy sha256_hash
                   \<and> py_in HANGAR_HASH (case sha256_hash of Some h \<Rightarrow> h | None \<Rightarrow> [])
                then ''Hangar''
                else current_map_value)
      else (case py_title (py_replace CHR ''_'' '' '' current_map_value) of
              None \<Rightarrow> Inl NotLatin1
            | Some map_name_display \<Rightarrow>
                Inr (filter (\<lambda>c. c \<noteq> CHR '')'')
                       (filter (\<lambda>c. c \<noteq> CHR ''('')
                          (py_replace CHR ''-'' ''_''
                             (py_replace CHR '' '' ''_'' (py_lower current_map_value)))),
                     map_name_display)))"

section \<open>The polling loop\<close>

text \<open>
  The state that survives a tick: the module's global tables and the loop's \<open>last_*\<close>
  variables and \<open>start_time\<close> (kept in whole seconds, as the payload reads it).
\<close>

record monitor_state =
  VEHICLE_NAME_CACHE :: "(string \<times> (string \<times> string)) list"
  LAST_VEHICLE_ID :: "string option"
  VEHICLE_DISPLAY_MAP :: "(string \<times> string) list"
  GLOBAL_MAP_HASHES :: "(string \<times> string) list"
  last_details :: string
  last_state :: string
  last_vehicle_display :: string
  last_image_url :: string
  last_br :: string
  last_map_name :: string
  start_time :: int

definition initial_state :: "(string \<times> string) list \<Rightarrow> int \<Rightarrow> monitor_state" where
  "initial_state map_hashes t0 =
     \<lparr>VEHICLE_NAME_CACHE = [], LAST_VEHICLE_ID = None, VEHICLE_DISPLAY_MAP = [],
      GLOBAL_MAP_HASHES = map_hashes,
      last_details = [], last_state = [], last_vehicle_display = [], last_image_url = [],
      last_br = [], last_map_name = [], start_time = t0\<rparr>"

text \<open>
  What the environment gives one tick: the three fetched telemetry values, the answer of
  the wiki scraper for each URL, the hash of the map image, the clock, and the URL
  library's verdict on a network location with square brackets.
\<close>

record tick_input =
  state_data :: "dict option"
  indicators_data :: "dict option"
  mission_data :: "dict option"
  get_vehicle_name :: "string \<Rightarrow> string option \<times> string option"
  sha256_hash :: "string option"
  now :: int
  url_netloc_ok :: "string \<Rightarrow> bool"

record rpc_payload =
  details :: string
  state :: string
  start :: int
  large_image :: string
  large_text :: string
  small_image :: "string option"
  small_text :: "string option"

text \<open>
  Step 2 of the loop: name and rating of the vehicle, from the cache or from the scraper.
  Returns them with the new state and the list of URLs given to the scraper. The name is
  \<open>None\<close> when it is the default name and that has a code point beyond 255.
\<close>

definition resolve_vehicle ::
  "monitor_state \<Rightarrow> (string \<Rightarrow> string option \<times> string option) \<Rightarrow> string
     \<Rightarrow> (string option \<times> string) \<times> monitor_state \<times> string list" where
  "resolve_vehicle st scraper raw_vehicle_id =
     (let cache = VEHICLE_NAME_CACHE st;
          default_name = get_default_display_name raw_vehicle_id;
          (detected_vehicle, detected_br, cache', urls) =
            (if raw_vehicle_id \<noteq> ''unknown_vehicle''
             then (case map_of cache raw_vehicle_id of
                     Some (cached_name, cached_br) \<Rightarrow> (Some cached_name, cached_br, cache, [])
                   | None \<Rightarrow>
                       if Some raw_vehicle_id \<noteq> LAST_VEHICLE_ID st
                          \<or> map_of cache raw_vehicle_id = None
                       then
                         (let wiki_url = get_wiki_url_from_id raw_vehicle_id
                          in case scraper wiki_url of
                               (Some scraped_name, scraped_br) \<Rightarrow>
                                 if scraped_name \<noteq> []
                                 then
                                   (let br = (if str_opt_truthy scraped_br
                                              then (case scraped_br of Some b \<Rightarrow> b | None \<Rightarrow> [])
                                              else ''N/A'')
                                    in (Some scraped_name, br,
                                        dict_set raw_vehicle_id (scraped_name, br) cache,
                                        [wiki_url]))
                                 else (default_name, ''N/A'', cache, [wiki_url])
                             | (None, scraped_br) \<Rightarrow> (default_name, ''N/A'', cache, [wiki_url]))
                       else (default_name, ''N/A'', cache, []))
             else (default_name, ''N/A'', cache, []));
          shown =
            (case map_of (VEHICLE_DISPLAY_MAP st) raw_vehicle_id of
               Some override \<Rightarrow> Some override
             | None \<Rightarrow> detected_vehicle)
      in ((shown, detected_br),
          st\<lparr>VEHICLE_NAME_CACHE := cache', LAST_VEHICLE_ID := Some raw_vehicle_id\<rparr>,
          urls))"

text \<open>
  The two entry points share the loop body; they differ in one assignment of step 8 (the
  command-line monitor sets the large image text in the fallback branch, the window's
  monitor does not).
\<close>

datatype variant = Cli | Gui

definition VEHICLE_IMAGE_BASE_URL :: string where
  "VEHICLE_IMAGE_BASE_URL = ''https://static.encyclopedia.warthunder.com/images/''"

text \<open>
  Step 8 of the loop. Returns
  \<open>(large_image_key, large_image_text, small_image_key, small_image_text)\<close>.
\<close>

definition images ::
  "variant \<Rightarrow> bool \<Rightarrow> string \<Rightarrow> string \<Rightarrow> string \<Rightarrow> string
     \<Rightarrow> string \<times> string \<times> string option \<times> string option" where
  "images v in_mission map_asset_key_or_url map_name_display current_image_url tooltip_text =
     (let is_clean_asset_key =
            (\<not> is_url map_asset_key_or_url
             \<and> map_asset_key_or_url \<notin> set [''unknown_map_(needs_update)'',
                  ''unknown_map_(just_added)'', ''unknown_map'', ''not_in_mission'', ''hangar'']);
          (large_image_key, large_image_text) =
            (if in_mission
             then (if is_url map_asset_key_or_url
                   then (map_asset_key_or_url,
                         if map_name_display \<noteq> ''Unknown Map (Upload Pending)''
                         then map_name_display else ''Uploading Map Image'')
                   else if is_clean_asset_key
                   then (map_asset_key_or_url, map_name_display)
                   else (''war_thunder_logo'',
                         case v of Cli \<Rightarrow> ''In Battle'' | Gui \<Rightarrow> ''War Thunder''))
             else (''war_thunder_logo'', ''War Thunder''));
          (small_image_key, small_image_text) =
            (if in_mission
             then (if current_image_url \<noteq> []
                   then (Some current_image_url, Some tooltip_text)
                   else (None, None))
             else if current_image_url \<noteq> []
             then (Some current_image_url, None)
             else (None, None));
          small_image_text' =
            (if str_opt_truthy small_image_key \<and> \<not> str_opt_truthy small_image_text
             then Some tooltip_text
             else small_image_text)
      in (large_image_key, large_image_text, small_image_key, small_image_text'))"

text \<open>What a tick has computed when it reaches the update check of step 11.\<close>

record computed =
  c_details :: string
  c_state :: string
  c_detected_vehicle :: string
  c_detected_br :: string
  c_map_name_display :: string
  c_payload :: rpc_payload

text \<open>
  The outcome of one tick: the state it leaves, the URLs it gave to the scraper, the name
  and rating of the vehicle (once step 2 is done), the table it saved to the configuration
  file (if it saved), the current map value (once step 3 is done), what it computed (once
  step 10 is done), the payload it gave to \<open>RPC.update\<close> (if it called it), and what
  ended it before its last step (if something did).
\<close>

record tick_result =
  next_state :: monitor_state
  lookups :: "string list"
  vehicle :: "(string \<times> string) option"
  saved :: "(string \<times> string) list option"
  map_value :: "string option"
  computed_view :: "computed option"
  published :: "rpc_payload option"
  crashed :: "py_error option"

text \<open>
  Step 11: the tuple of current values against the tuple of remembered ones. The fifth
  component of both tuples is the current \<open>small_image_key\<close>.
\<close>

definition rpc_data_changed :: "monitor_state \<Rightarrow> computed \<Rightarrow> bool" where
  "rpc_data_changed st c =
     ((c_details c, c_state c, c_detected_vehicle c, large_image (c_payload c),
       small_image (c_payload c), c_detected_br c, c_map_name_display c)
      \<noteq> (last_details st, last_state st, last_vehicle_display st, last_image_url st,
          small_image (c_payload c), last_br st, last_map_name st))"

definition remember :: "monitor_state \<Rightarrow> computed \<Rightarrow> monitor_state" where
  "remember st c =
     st\<lparr>last_details := c_details c, last_state := c_state c,
        last_vehicle_display := c_detected_vehicle c,
        last_image_url := large_image (c_payload c),
        last_br := c_detected_br c, last_map_name := c_map_name_display c\<rparr>"

text \<open>
  Steps 7 to 10: the tooltip, the images, and the payload, from the values that steps 1 to
  6 produced. \<open>t\<close> is \<open>start_time\<close> after the reset of step 8.
\<close>

definition build_computed ::
  "variant \<Rightarrow> bool \<Rightarrow> string \<Rightarrow> string \<Rightarrow> string \<Rightarrow> string \<Rightarrow> string \<Rightarrow> string \<Rightarrow> string
     \<Rightarrow> int \<Rightarrow> computed" where
  "build_computed v in_mission raw_vehicle_id detected_vehicle detected_br
       map_asset_key_or_url map_name_display details_text state_text t =
     (let current_image_url =
            (if raw_vehicle_id \<noteq> ''unknown_vehicle''
             then VEHICLE_IMAGE_BASE_URL @ raw_vehicle_id @ ''.png'' else []);
          br_tooltip = (if detected_br \<noteq> ''N/A'' then '' BR: '' @ detected_br else []);
          tooltip_text = detected_vehicle @ br_tooltip;
          (large_image_key, large_image_text, small_image_key, small_image_text) =
            images v in_mission map_asset_key_or_url map_name_display
              current_image_url tooltip_text
      in \<lparr>c_details = details_text, c_state = state_text,
          c_detected_vehicle = detected_vehicle, c_detected_br = detected_br,
          c_map_name_display = map_name_display,
          c_payload =
            \<lparr>details = details_text, state = state_text, start = t,
             large_image = large_image_key, large_text = large_image_text,
             small_image = (if str_opt_truthy small_image_key then small_image_key else None),
             small_text = (if str_opt_truthy small_image_key then small_image_text else None)\<rparr>\<rparr>)"

text \<open>Step 11: call \<open>RPC.update\<close> and remember the values, only when the tuples differ.\<close>

definition update_rpc :: "tick_result \<Rightarrow> monitor_state \<Rightarrow> computed \<Rightarrow> tick_result" where
  "update_rpc r st c =
     (if rpc_data_changed st c
      then r\<lparr>next_state := remember st c, computed_view := Some c,
             published := Some (c_payload c)\<rparr>
      else r\<lparr>next_state := st, computed_view := Some c\<rparr>)"

text \<open>
  Steps 5 to 11, once the vehicle and the map value are known. \<open>r\<close> is the outcome so far;
  a vehicle name that the model cannot hold ends the tick here.
\<close>

definition present ::
  "variant \<Rightarrow> tick_input \<Rightarrow> tick_result \<Rightarrow> string \<Rightarrow> string \<Rightarrow> string option \<Rightarrow> string
     \<Rightarrow> string \<Rightarrow> tick_result" where
  "present v inp r raw_vehicle_id unfiltered_raw_id name detected_br current_map_value =
     (case name of
        None \<Rightarrow> r\<lparr>crashed := Some NotLatin1\<rparr>
      | Some detected_vehicle \<Rightarrow>
     (case map_display (url_netloc_ok inp) current_map_value (sha256_hash inp) of
        Inl e \<Rightarrow> r\<lparr>crashed := Some e\<rparr>
      | Inr (map_asset_key_or_url, map_name_display) \<Rightarrow>
          (case get_status_message (state_data inp) (mission_data inp) detected_vehicle
                  map_name_display unfiltered_raw_id of
             Inl e \<Rightarrow> r\<lparr>crashed := Some e\<rparr>
           | Inr (details_text, state_text) \<Rightarrow>
               let st3 = (if map_name_display = ''Hangar''
                          then (next_state r)\<lparr>start_time := now inp\<rparr> else next_state r)
               in update_rpc r st3
                    (build_computed v (is_in_mission (mission_data inp)) raw_vehicle_id
                       detected_vehicle detected_br map_asset_key_or_url map_name_display
                       details_text state_text (start_time st3)))))"

text \<open>One pass through the loop body.\<close>

definition tick :: "variant \<Rightarrow> monitor_state \<Rightarrow> tick_input \<Rightarrow> tick_result" where
  "tick v st inp =
     (case get_raw_vehicle_id (state_data inp) (indicators_data inp) of
        Inl e \<Rightarrow>
          \<lparr>next_state = st, lookups = [], vehicle = None, saved = None, map_value = None,
           computed_view = None, published = None, crashed = Some e\<rparr>
      | Inr (raw_vehicle_id, unfiltered_raw_id) \<Rightarrow>
          let ((name, detected_br), st1, urls) =
                resolve_vehicle st (get_vehicle_name inp) raw_vehicle_id;
              (current_map_value, map_hashes, added) =
                identify_map (GLOBAL_MAP_HASHES st1) (sha256_hash inp)
          in present v inp
               \<lparr>next_state = st1\<lparr>GLOBAL_MAP_HASHES := map_hashes\<rparr>, lookups = urls,
                vehicle = map_option (\<lambda>n. (n, detected_br)) name,
                saved = (if added then Some map_hashes else None),
                map_value = Some current_map_value,
                computed_view = None, published = None, crashed = None\<rparr>
               raw_vehicle_id unfiltered_raw_id name detected_br current_map_value)"

text \<open>
  The loop over the ticks that the environment offers: each tick starts from the state the
  previous one left, and the loop ends with the first tick that does not reach its last
  step.
\<close>

fun run_ticks :: "variant \<Rightarrow> monitor_state \<Rightarrow> tick_input list \<Rightarrow> tick_result list" where
  "run_ticks v st [] = []"
| "run_ticks v st (inp # inps) =
     (let r = tick v st inp
      in r # (if crashed r = None then run_ticks v (next_state r) inps else []))"

section \<open>Sample ticks\<close>

text \<open>
  A tick in the hangar at clock \<open>t\<close>: the state endpoint names the vehicle \<open>f3d_1\<close>, the
  mission endpoint reports no running mission, the wiki cannot be reached, and the map
  image is the hangar background.
\<close>

definition hangar_input :: "int \<Rightarrow> tick_input" where
  "hangar_input t =
     \<lparr>state_data = Some [(''name'', JStr ''f3d_1'')], indicators_data = None,
      mission_data = Some [(''status'', JStr ''fail'')],
      get_vehicle_name = (\<lambda>url. (None, None)),
      sha256_hash = Some HANGAR_HASH, now = t,
      url_netloc_ok = (\<lambda>netloc. True)\<rparr>"

definition hangar_payload :: "int \<Rightarrow> rpc_payload" where
  "hangar_payload t =
     \<lparr>details = ''Idle in Hangar'', state = ''Inspecting F3D 1'', start = t,
      large_image = ''war_thunder_logo'', large_text = ''War Thunder'',
      small_image = Some ''https://static.encyclopedia.warthunder.com/images/f3d_1.png'',
      small_text = Some ''F3D 1''\<rparr>"

text \<open>
  A tick in a ground battle: the state endpoint names \<open>tankmodels/t_34\<close>, the mission is
  running, the wiki cannot be reached, and no map image is available.
\<close>

definition t34_input :: tick_input where
  "t34_input =
     \<lparr>state_data = Some [(''name'', JStr ''tankmodels/t_34'')], indicators_data = None,
      mission_data = Some [(''status'', JStr ''running'')],
      get_vehicle_name = (\<lambda>url. (None, None)),
      sha256_hash = None, now = 1005,
      url_netloc_ok = (\<lambda>netloc. True)\<rparr>"

text \<open>A state whose cache already holds the scraped name and rating of \<open>t_34\<close>.\<close>

definition t34_cached_state :: monitor_state where
  "t34_cached_state =
     (initial_state [] 1000)\<lparr>VEHICLE_NAME_CACHE := [(''t_34'', (''T-34'', ''3.7''))]\<rparr>"

text \<open>
  A tick like \<open>t34_input\<close> on which the wiki answers: the scraper returns the name \<open>T-34\<close>
  and the rating \<open>3.7\<close>.
\<close>

definition t34_scraped_input :: tick_input where
  "t34_scraped_input = t34_input\<lparr>get_vehicle_name := (\<lambda>url. (Some ''T-34'', Some ''3.7''))\<rparr>"

text \<open>
  A tick with the game running and no mission, for a vehicle with the given name in the
  state data; the wiki gives every page the name \<open>Spitfire\<close> and the rating \<open>3.7\<close>.
\<close>

definition spitfire_input :: "string \<Rightarrow> tick_input" where
  "spitfire_input name =
     \<lparr>state_data = Some [(''name'', JStr name)], indicators_data = None,
      mission_data = Some [(''status'', JStr ''fail'')],
      get_vehicle_name = (\<lambda>url. (Some ''Spitfire'', Some ''3.7'')),
      sha256_hash = None, now = 1005,
      url_netloc_ok = (\<lambda>netloc. True)\<rparr>"

text \<open>A tick on which no endpoint of the game answers but the mission endpoint.\<close>

definition offline_input :: "dict option \<Rightarrow> tick_input" where
  "offline_input md =
     \<lparr>state_data = None, indicators_data = None, mission_data = md,
      get_vehicle_name = (\<lambda>url. (None, None)),
      sha256_hash = None, now = 1005,
      url_netloc_ok = (\<lambda>netloc. True)\<rparr>"

text \<open>The fingerprint of some map image, and a table that knows it by name.\<close>

definition PORT_HASH :: string where
  "PORT_HASH = ''3a7bd3e2360a3d29eea436fcfb7e44c735d117c42d1c1835420b6b9942dd4f1b''"

section \<open>Runs\<close>

text \<open>The last tick of a list that called \<open>RPC.update\<close>, if there is one.\<close>

fun last_publishing :: "tick_result list \<Rightarrow> tick_result option" where
  "last_publishing [] = None"
| "last_publishing (r # rs) =
     (case last_publishing rs of
        Some r' \<Rightarrow> Some r'
      | None \<Rightarrow> if published r \<noteq> None then Some r else None)"

text \<open>
  The values that step 11 compares, other than the small image key: those of the current
  tick, and those remembered from the last call of \<open>RPC.update\<close>.
\<close>

definition compared_values ::
  "computed \<Rightarrow> string \<times> string \<times> string \<times> string \<times> string \<times> string" where
  "compared_values c =
     (c_details c, c_state c, c_detected_vehicle c, large_image (c_payload c),
      c_detected_br c, c_map_name_display c)"

definition remembered_values ::
  "monitor_state \<Rightarrow> string \<times> string \<times> string \<times> string \<times> string \<times> string" where
  "remembered_values st =
     (last_details st, last_state st, last_vehicle_display st, last_image_url st,
      last_br st, last_map_name st)"

text \<open>What holds of a tick that has computed \<open>c\<close>.\<close>

definition coherent :: "tick_result \<Rightarrow> computed \<Rightarrow> bool" where
  "coherent r c =
     (computed_view r = Some c
      \<and> vehicle r = Some (c_detected_vehicle c, c_detected_br c)
      \<and> details (c_payload c) = c_details c \<and> state (c_payload c) = c_state c
      \<and> c_details c \<noteq> [])"

text \<open>
  Where a tick that has computed \<open>c\<close> has the vehicle from, for some vehicle id: the small
  image and its text are those of the id, and name and rating are those of the sentinel,
  or the default name with no rating, or the record that the cache of \<open>st\<close> holds.
\<close>

definition shown_from :: "monitor_state \<Rightarrow> tick_result \<Rightarrow> computed \<Rightarrow> bool" where
  "shown_from st r c =
     (\<exists>rid. small_image (c_payload c)
               = (if rid \<noteq> ''unknown_vehicle''
                  then Some (VEHICLE_IMAGE_BASE_URL @ rid @ ''.png'') else None)
          \<and> small_text (c_payload c)
               = (if rid \<noteq> ''unknown_vehicle''
                  then Some (c_detected_vehicle c
                             @ (if c_detected_br c \<noteq> ''N/A'' then '' BR: '' @ c_detected_br c
                                else []))
                  else None)
          \<and> (if rid = ''unknown_vehicle''
              then vehicle r = Some (''Unknown Vehicle'', ''N/A'')
              else (\<exists>D. get_default_display_name rid = Some D \<and> vehicle r = Some (D, ''N/A''))
                   \<or> (\<exists>entry. map_of (VEHICLE_NAME_CACHE st) rid = Some entry
                               \<and> vehicle r = Some entry)))"

text \<open>
  The state of the loop remembers the values of the last tick that called \<open>RPC.update\<close>,
  and empty strings as long as there is none; the table of manual overrides is empty.
\<close>

definition publication_invariant :: "monitor_state \<Rightarrow> tick_result option \<Rightarrow> bool" where
  "publication_invariant st lp =
     (VEHICLE_DISPLAY_MAP st = []
      \<and> (case lp of
            None \<Rightarrow> remembered_values st = ([], [], [], [], [], [])
          | Some r' \<Rightarrow>
              (\<exists>l. coherent r' l \<and> published r' = Some (c_payload l)
                   \<and> remembered_values st = compared_values l
                   \<and> shown_from st r' l)))"

section \<open>Properties of the strings and of the vehicle identifier\<close>

lemma lower_char_idem: "lower_char (lower_char c) = lower_char c"
  by (simp add: lower_char_def py_isupper_def Let_def)

lemma py_lower_fixed: "\<forall>c \<in> set s. lower_char c = c \<Longrightarrow> py_lower s = s"
  by (simp add: py_lower_def map_idI)

lemma set_py_strip: "set (py_strip s) \<subseteq> set s"
proof -
  have "set (dropWhile py_isspace (rev (dropWhile py_isspace s)))
          \<subseteq> set (rev (dropWhile py_isspace s))"
    by (rule set_dropWhileD[THEN subsetI])
  also have "\<dots> \<subseteq> set s"
    using set_dropWhileD[of _ py_isspace s] by auto
  finally show ?thesis by (simp add: py_strip_def)
qed

lemma set_last_segment: "set (last_segment sep s) \<subseteq> set s"
  using set_takeWhileD[of _ "\<lambda>c. c \<noteq> sep" "rev s"] by (auto simp: last_segment_def)

lemma sep_notin_last_segment: "sep \<notin> set (last_segment sep s)"
  using set_takeWhileD[of sep "\<lambda>c. c \<noteq> sep" "rev s"] by (auto simp: last_segment_def)

lemma last_segment_no_sep:
  assumes "sep \<notin> set s"
  shows "last_segment sep s = s"
proof -
  from assms have "takeWhile (\<lambda>c. c \<noteq> sep) (rev s) = rev s"
    by (auto simp add: takeWhile_eq_all_conv)
  then show ?thesis by (simp only: last_segment_def rev_rev_ident)
qed

lemma lowered_chars: "c \<in> set (py_strip (py_lower s)) \<Longrightarrow> lower_char c = c"
  using set_py_strip[of "py_lower s"] by (auto simp: py_lower_def lower_char_idem)

lemma py_in_nonempty: "py_in sub s \<Longrightarrow> sub \<noteq> [] \<Longrightarrow> s \<noteq> []"
  by (cases s) auto

text \<open>
  Claim C8. For a raw vehicle id that is a non-empty string other than the two spellings of
  the unknown-vehicle sentinel, \<open>get_raw_vehicle_id\<close> returns, as the unfiltered id, the
  raw id lower-cased and stripped of surrounding whitespace, and as the canonical id the
  last \<open>/\<close>-delimited segment of that unfiltered id. The canonical id contains no \<open>/\<close> and
  lower-casing leaves it unchanged. Both are functions of the raw id alone.
\<close>

theorem canonical_id_is_last_segment:
  assumes "select_raw_id sd ind = Some (JStr s)"
    and "s \<noteq> []" and "s \<noteq> ''unknown_vehicle''" and "s \<noteq> ''Unknown Vehicle''"
  shows "get_raw_vehicle_id sd ind
           = Inr (last_segment CHR ''/'' (py_strip (py_lower s)), py_strip (py_lower s))
         \<and> CHR ''/'' \<notin> set (last_segment CHR ''/'' (py_strip (py_lower s)))
         \<and> py_lower (last_segment CHR ''/'' (py_strip (py_lower s)))
             = last_segment CHR ''/'' (py_strip (py_lower s))"
proof -
  let ?u = "py_strip (py_lower s)"
  have a: "get_raw_vehicle_id sd ind = Inr (last_segment CHR ''/'' ?u, ?u)"
    using assms by (simp add: get_raw_vehicle_id_def Let_def last_segment_no_sep)
  have b: "CHR ''/'' \<notin> set (last_segment CHR ''/'' ?u)"
    by (rule sep_notin_last_segment)
  have "\<forall>c \<in> set (last_segment CHR ''/'' ?u). lower_char c = c"
    using set_last_segment[of "CHR ''/''" ?u] lowered_chars[of _ s] by blast
  then have c: "py_lower (last_segment CHR ''/'' ?u) = last_segment CHR ''/'' ?u"
    by (rule py_lower_fixed)
  from a b c show ?thesis by blast
qed

theorem canonical_id_is_last_segment_witness:
  "get_raw_vehicle_id (Some [(''name'', JStr '' TankModels/T-34 '')]) None
     = Inr (''t-34'', ''tankmodels/t-34'')"
proof -
  have s: "select_raw_id (Some [(''name'', JStr '' TankModels/T-34 '')]) None
             = Some (JStr '' TankModels/T-34 '')"
    by code_simp
  have e: "last_segment CHR ''/'' (py_strip (py_lower '' TankModels/T-34 '')) = ''t-34''"
    "py_strip (py_lower '' TankModels/T-34 '') = ''tankmodels/t-34''"
    by code_simp+
  show ?thesis
    using canonical_id_is_last_segment[OF s] e by simp
qed

text \<open>
  Claim C10. When the state data has a \<open>name\<close> key, \<open>get_raw_vehicle_id\<close> works from the
  state's name alone, whatever the indicators data is: a false name or one of the two
  spellings of the sentinel gives the sentinel, a string \<open>s\<close> gives the last segment of the
  lower-cased and stripped \<open>s\<close> with the lower-cased and stripped \<open>s\<close>, and any other value
  has no \<open>lower\<close> method. The \<open>type\<close> of the indicators data is used, in the same way,
  when the state data is absent or has no \<open>name\<close> key.
\<close>

theorem state_name_decides_vehicle_id:
  "(map_of sd ''name'' = Some x \<longrightarrow>
      get_raw_vehicle_id (Some sd) ind =
        (if \<not> truthy x \<or> x = JStr ''unknown_vehicle'' \<or> x = JStr ''Unknown Vehicle''
         then Inr (''unknown_vehicle'', ''unknown_vehicle'')
         else (case x of
                 JStr s \<Rightarrow>
                   Inr (last_segment CHR ''/'' (py_strip (py_lower s)), py_strip (py_lower s))
               | _ \<Rightarrow> Inl AttributeError)))
   \<and> ((sdo = None \<or> (\<exists>sd'. sdo = Some sd' \<and> map_of sd' ''name'' = None))
        \<and> map_of idt ''type'' = Some y \<longrightarrow>
      get_raw_vehicle_id sdo (Some idt) =
        (if \<not> truthy y \<or> y = JStr ''unknown_vehicle'' \<or> y = JStr ''Unknown Vehicle''
         then Inr (''unknown_vehicle'', ''unknown_vehicle'')
         else (case y of
                 JStr s \<Rightarrow>
                   Inr (last_segment CHR ''/'' (py_strip (py_lower s)), py_strip (py_lower s))
               | _ \<Rightarrow> Inl AttributeError)))"
proof -
  have fv: "get_raw_vehicle_id a b =
        (if \<not> truthy z \<or> z = JStr ''unknown_vehicle'' \<or> z = JStr ''Unknown Vehicle''
         then Inr (''unknown_vehicle'', ''unknown_vehicle'')
         else (case z of
                 JStr s \<Rightarrow>
                   Inr (last_segment CHR ''/'' (py_strip (py_lower s)), py_strip (py_lower s))
               | _ \<Rightarrow> Inl AttributeError))"
    if "select_raw_id a b = Some z" for a b z
    using that
    by (cases z) (simp_all add: get_raw_vehicle_id_def Let_def last_segment_no_sep)
  have first: "select_raw_id (Some sd) ind = Some x" if "map_of sd ''name'' = Some x"
  proof -
    from that have "sd \<noteq> []" by auto
    with that show ?thesis by (simp add: select_raw_id_def dict_get_def)
  qed
  have second: "select_raw_id sdo (Some idt) = Some y"
    if "sdo = None \<or> (\<exists>sd'. sdo = Some sd' \<and> map_of sd' ''name'' = None)"
      and "map_of idt ''type'' = Some y"
  proof -
    from that(2) have "idt \<noteq> []" by auto
    with that show ?thesis by (auto simp add: select_raw_id_def dict_get_def)
  qed
  from fv[OF first] fv[OF second] show ?thesis by blast
qed

theorem state_name_decides_vehicle_id_witness:
  "get_raw_vehicle_id (Some [(''name'', JStr ''f3d_1'')])
      (Some [(''type'', JStr ''tankmodels/t-34'')]) = Inr (''f3d_1'', ''f3d_1'')
   \<and> get_raw_vehicle_id None (Some [(''type'', JStr ''tankmodels/t-34'')])
       = Inr (''t-34'', ''tankmodels/t-34'')
   \<and> get_raw_vehicle_id (Some [(''valid'', JBool True)])
        (Some [(''type'', JStr ''tankmodels/t-34'')]) = Inr (''t-34'', ''tankmodels/t-34'')"
proof -
  have e: "last_segment CHR ''/'' (py_strip (py_lower ''f3d_1'')) = ''f3d_1''"
    "py_strip (py_lower ''f3d_1'') = ''f3d_1''"
    "last_segment CHR ''/'' (py_strip (py_lower ''tankmodels/t-34'')) = ''t-34''"
    "py_strip (py_lower ''tankmodels/t-34'') = ''tankmodels/t-34''"
    by code_simp+
  have a: "get_raw_vehicle_id (Some [(''name'', JStr ''f3d_1'')])
      (Some [(''type'', JStr ''tankmodels/t-34'')]) = Inr (''f3d_1'', ''f3d_1'')"
    using state_name_decides_vehicle_id[of "[(''name'', JStr ''f3d_1'')]" "JStr ''f3d_1''"
        "Some [(''type'', JStr ''tankmodels/t-34'')]" None "[]" JNull] e
    by simp
  have b: "get_raw_vehicle_id None (Some [(''type'', JStr ''tankmodels/t-34'')])
       = Inr (''t-34'', ''tankmodels/t-34'')"
    using state_name_decides_vehicle_id[of "[]" JNull None None
        "[(''type'', JStr ''tankmodels/t-34'')]" "JStr ''tankmodels/t-34''"] e
    by simp
  have c: "get_raw_vehicle_id (Some [(''valid'', JBool True)])
        (Some [(''type'', JStr ''tankmodels/t-34'')]) = Inr (''t-34'', ''tankmodels/t-34'')"
    using state_name_decides_vehicle_id[of "[]" JNull None "Some [(''valid'', JBool True)]"
        "[(''type'', JStr ''tankmodels/t-34'')]" "JStr ''tankmodels/t-34''"] e
    by simp
  from a b c show ?thesis by blast
qed

section \<open>Properties of the classifier\<close>

text \<open>
  Claim C7. With no state data (\<open>None\<close>) the classifier returns the headline \<open>Offline\<close> and
  the subline \<open>Waiting for game...\<close>, whatever the mission data, the vehicle name, the map
  name and the unfiltered id are.
\<close>

theorem offline_when_state_absent:
  "get_status_message None md detected_vehicle map_name unfiltered_raw_id
     = Inr (''Offline'', ''Waiting for game...'')"
  by (simp add: get_status_message_def)

theorem offline_when_state_absent_witness:
  "get_status_message None (Some [(''status'', JStr ''running'')]) ''T-34'' ''Abandoned Town''
       ''tankmodels/t-34''
     = Inr (''Offline'', ''Waiting for game...'')"
  by (rule offline_when_state_absent)

text \<open>
  Claim C6, as amended. With non-empty state data, the map name \<open>Abandoned Town\<close>, mission
  status \<open>running\<close>, an unfiltered id that contains \<open>tankmodels/\<close>, the vehicle name \<open>T-34\<close>,
  and a reported mission type that is missing, false, the generic \<open>mission\<close>, or itself
  contains \<open>ground_battle\<close> or \<open>ground_match\<close>, the classifier returns the headline
  \<open>In Ground Battle on Abandoned Town\<close> and the subline \<open>Driving a T-34\<close>.
\<close>

theorem ground_battle_scenario:
  assumes "sd \<noteq> []"
    and "map_of md ''status'' = Some (JStr ''running'')"
    and "case map_of md ''type'' of
           None \<Rightarrow> True
         | Some t \<Rightarrow> t = JStr ''mission'' \<or> \<not> truthy t
                     \<or> json_has ''ground_battle'' t \<or> json_has ''ground_match'' t"
    and "py_in ''tankmodels/'' unfiltered_raw_id"
  shows "get_status_message (Some sd) (Some md) ''T-34'' ''Abandoned Town'' unfiltered_raw_id
           = Inr (''In Ground Battle on Abandoned Town'', ''Driving a T-34'')"
proof -
  from assms(2) have md: "md \<noteq> []" by auto
  have mis: "is_in_mission (Some md)"
    using assms(2) md by (simp add: is_in_mission_def dict_get_def)
  have ne: "unfiltered_raw_id \<noteq> []"
    using py_in_nonempty[OF assms(4)] by simp
  have inf: "inferred_type unfiltered_raw_id = ''ground_battle''"
    using assms(4) ne by (simp add: inferred_type_def)
  have g: "py_in ''ground_battle'' ''ground_battle''" by code_simp
  let ?t = "infer_mission_type (dict_get (Some md) ''type'') unfiltered_raw_id"
  have t: "supports_in ?t \<and> (json_has ''ground_battle'' ?t \<or> json_has ''ground_match'' ?t)"
  proof (cases "map_of md ''type''")
    case None
    then show ?thesis using inf g by (simp add: infer_mission_type_def dict_get_def)
  next
    case (Some t)
    show ?thesis
    proof (cases "\<not> truthy t \<or> t = JStr ''mission''")
      case True
      then show ?thesis
        using Some inf g by (auto simp add: infer_mission_type_def dict_get_def)
    next
      case False
      with assms(3) Some
      have h: "json_has ''ground_battle'' t \<or> json_has ''ground_match'' t" by simp
      then have "supports_in t" by (cases t) auto
      with h False Some show ?thesis
        by (auto simp add: infer_mission_type_def dict_get_def)
    qed
  qed
  have act: "action_text ''T-34'' unfiltered_raw_id = ''Driving a T-34''"
    using assms(4) by (simp add: action_text_def)
  have "mission_message ?t (action_text ''T-34'' unfiltered_raw_id) ''Abandoned Town''
          = Inr (''In Ground Battle on Abandoned Town'', ''Driving a T-34'')"
    using t act by (simp add: mission_message_def)
  then show ?thesis
    using assms(1) mis by (simp add: get_status_message_def)
qed

theorem ground_battle_scenario_witness:
  "get_status_message (Some [(''name'', JStr ''tankmodels/t-34'')])
       (Some [(''status'', JStr ''running''), (''type'', JStr ''mission'')])
       ''T-34'' ''Abandoned Town'' ''tankmodels/t-34''
     = Inr (''In Ground Battle on Abandoned Town'', ''Driving a T-34'')"
proof -
  have a: "[(''name'', JStr ''tankmodels/t-34'')] \<noteq> []" by simp
  have b: "map_of [(''status'', JStr ''running''), (''type'', JStr ''mission'')] ''status''
             = Some (JStr ''running'')" by simp
  have c: "case map_of [(''status'', JStr ''running''), (''type'', JStr ''mission'')] ''type'' of
             None \<Rightarrow> True
           | Some t \<Rightarrow> t = JStr ''mission'' \<or> \<not> truthy t
                       \<or> json_has ''ground_battle'' t \<or> json_has ''ground_match'' t" by simp
  have d: "py_in ''tankmodels/'' ''tankmodels/t-34''" by code_simp
  show ?thesis by (rule ground_battle_scenario[OF a b c d])
qed

text \<open>
  Claim C6 as stated fails: every condition it names holds, and the mission reports the
  type \<open>air_battle\<close>, so the headline is that of an air battle.
\<close>

theorem ground_battle_scenario_counterexample:
  "dict_truthy (Some [(''name'', JStr ''tankmodels/t-34'')])
   \<and> ''Abandoned Town'' \<noteq> ''Hangar''
   \<and> dict_get (Some [(''status'', JStr ''running''), (''type'', JStr ''air_battle'')]) ''status''
       = Some (JStr ''running'')
   \<and> py_in ''tankmodels/'' ''tankmodels/t-34''
   \<and> get_status_message (Some [(''name'', JStr ''tankmodels/t-34'')])
       (Some [(''status'', JStr ''running''), (''type'', JStr ''air_battle'')])
       ''T-34'' ''Abandoned Town'' ''tankmodels/t-34''
     = Inr (''In Air Battle on Abandoned Town'', ''Driving a T-34'')"
  by code_simp

section \<open>Properties of the fetch helper\<close>

text \<open>
  Claim C9. \<open>get_data\<close> raises to its caller no exception of class \<open>Exception\<close>: whenever
  a step of the fetch (the request, the status check, the JSON decoding) raises one, be it
  a timeout, a connection error, an HTTP error, a JSON decoding error or any other, the
  helper returns \<open>None\<close>.
\<close>

theorem get_data_absorbs_failures:
  "(\<forall>e. get_data requests_get endpoint_name = Inl e \<longrightarrow> \<not> is_Exception e)
   \<and> (\<forall>url e. map_of ENDPOINTS endpoint_name = Some url
         \<and> get_data_try requests_get url = Inl e \<and> is_Exception e
        \<longrightarrow> get_data requests_get endpoint_name = Inr None)"
  by (auto simp add: get_data_def caught_def split: option.splits sum.splits if_splits)

theorem get_data_absorbs_failures_witness:
  "get_data (\<lambda>url. Inl Timeout :: exn + json response) ''state'' = Inr None
   \<and> get_data (\<lambda>url. Inr \<lparr>raise_for_status = Some HTTPError,
                          json_body = Inr (JObj []) :: exn + json\<rparr>) ''mission'' = Inr None"
proof -
  have u: "map_of ENDPOINTS ''state'' = Some ''http://127.0.0.1:8111/state''"
    "map_of ENDPOINTS ''mission'' = Some ''http://127.0.0.1:8111/mission.json''"
    by (simp_all add: ENDPOINTS_def WAR_THUNDER_API_URL_def)
  have a: "get_data_try (\<lambda>url. Inl Timeout :: exn + json response)
             ''http://127.0.0.1:8111/state'' = Inl Timeout"
    by (simp add: get_data_try_def)
  have b: "get_data_try (\<lambda>url. Inr \<lparr>raise_for_status = Some HTTPError,
                          json_body = Inr (JObj []) :: exn + json\<rparr>)
             ''http://127.0.0.1:8111/mission.json'' = Inl HTTPError"
    by (simp add: get_data_try_def)
  have e: "is_Exception Timeout" "is_Exception HTTPError" by simp_all
  show ?thesis
    using get_data_absorbs_failures[of "\<lambda>url. Inl Timeout :: exn + json response" "''state''"]
      get_data_absorbs_failures[of "\<lambda>url. Inr \<lparr>raise_for_status = Some HTTPError,
                          json_body = Inr (JObj []) :: exn + json\<rparr>" "''mission''"]
      u a b e by blast
qed

section \<open>Properties of one tick\<close>

lemma update_rpc_simps:
  "lookups (update_rpc r st c) = lookups r"
  "vehicle (update_rpc r st c) = vehicle r"
  "saved (update_rpc r st c) = saved r"
  "map_value (update_rpc r st c) = map_value r"
  "crashed (update_rpc r st c) = crashed r"
  "computed_view (update_rpc r st c) = Some c"
  "published (update_rpc r st c) = (if rpc_data_changed st c then Some (c_payload c) else published r)"
  "VEHICLE_NAME_CACHE (next_state (update_rpc r st c)) = VEHICLE_NAME_CACHE st"
  "VEHICLE_DISPLAY_MAP (next_state (update_rpc r st c)) = VEHICLE_DISPLAY_MAP st"
  "GLOBAL_MAP_HASHES (next_state (update_rpc r st c)) = GLOBAL_MAP_HASHES st"
  "start_time (next_state (update_rpc r st c)) = start_time st"
  by (simp_all add: update_rpc_def remember_def)

lemma present_simps:
  "lookups (present v inp r rid uid dv dbr mv) = lookups r"
  "vehicle (present v inp r rid uid dv dbr mv) = vehicle r"
  "saved (present v inp r rid uid dv dbr mv) = saved r"
  "map_value (present v inp r rid uid dv dbr mv) = map_value r"
  "VEHICLE_NAME_CACHE (next_state (present v inp r rid uid dv dbr mv)) = VEHICLE_NAME_CACHE (next_state r)"
  "VEHICLE_DISPLAY_MAP (next_state (present v inp r rid uid dv dbr mv)) = VEHICLE_DISPLAY_MAP (next_state r)"
  "GLOBAL_MAP_HASHES (next_state (present v inp r rid uid dv dbr mv)) = GLOBAL_MAP_HASHES (next_state r)"
  by (simp_all add: present_def update_rpc_simps Let_def
      split: option.splits sum.splits prod.splits)


lemma map_of_dict_set: "map_of (dict_set k v d) k' = (if k' = k then Some v else map_of d k')"
  by (induction d) auto

lemma dict_set_fresh: "map_of d k = None \<Longrightarrow> dict_set k v d = d @ [(k, v)]"
  by (induction d) (auto split: if_splits)


lemma wiki_url_inj: "get_wiki_url_from_id a = get_wiki_url_from_id b \<Longrightarrow> a = b"
  by (simp add: get_wiki_url_from_id_def)

lemma resolve_cached:
  assumes "map_of (VEHICLE_NAME_CACHE st) rid = Some cached" and "rid \<noteq> ''unknown_vehicle''"
  shows "resolve_vehicle st sc rid =
           ((case map_of (VEHICLE_DISPLAY_MAP st) rid of
               Some override \<Rightarrow> Some override | None \<Rightarrow> Some (fst cached), snd cached),
            st\<lparr>LAST_VEHICLE_ID := Some rid\<rparr>, [])"
  using assms by (cases cached) (auto simp add: resolve_vehicle_def Let_def split: option.splits)

lemma resolve_unknown:
  "resolve_vehicle st sc ''unknown_vehicle'' =
           ((case map_of (VEHICLE_DISPLAY_MAP st) ''unknown_vehicle'' of
               Some override \<Rightarrow> Some override | None \<Rightarrow> Some ''Unknown Vehicle'', ''N/A''),
            st\<lparr>LAST_VEHICLE_ID := Some ''unknown_vehicle''\<rparr>, [])"
  by (simp add: resolve_vehicle_def Let_def get_default_display_name_def)

lemma resolve_failed:
  assumes "map_of (VEHICLE_NAME_CACHE st) rid = None" and "rid \<noteq> ''unknown_vehicle''"
    and "\<not> str_opt_truthy (fst (sc (get_wiki_url_from_id rid)))"
  shows "resolve_vehicle st sc rid =
           ((case map_of (VEHICLE_DISPLAY_MAP st) rid of
               Some override \<Rightarrow> Some override | None \<Rightarrow> get_default_display_name rid,
             ''N/A''),
            st\<lparr>LAST_VEHICLE_ID := Some rid\<rparr>, [get_wiki_url_from_id rid])"
proof (cases "sc (get_wiki_url_from_id rid)")
  case (Pair n b)
  show ?thesis
  proof (cases n)
    case None
    with Pair assms show ?thesis by (simp add: resolve_vehicle_def Let_def)
  next
    case (Some x)
    with Pair assms have "x = []" by simp
    with Some Pair assms show ?thesis by (simp add: resolve_vehicle_def Let_def)
  qed
qed

lemma resolve_scraped:
  assumes "map_of (VEHICLE_NAME_CACHE st) rid = None" and "rid \<noteq> ''unknown_vehicle''"
    and "sc (get_wiki_url_from_id rid) = (Some n, b)" and "n \<noteq> []"
  shows "resolve_vehicle st sc rid =
           ((case map_of (VEHICLE_DISPLAY_MAP st) rid of
               Some override \<Rightarrow> Some override | None \<Rightarrow> Some n,
             if str_opt_truthy b then (case b of Some x \<Rightarrow> x | None \<Rightarrow> []) else ''N/A''),
            st\<lparr>VEHICLE_NAME_CACHE :=
                  dict_set rid (n, if str_opt_truthy b then (case b of Some x \<Rightarrow> x | None \<Rightarrow> [])
                                   else ''N/A'') (VEHICLE_NAME_CACHE st),
                LAST_VEHICLE_ID := Some rid\<rparr>,
            [get_wiki_url_from_id rid])"
  using assms by (simp add: resolve_vehicle_def Let_def)

text \<open>The four ways step 2 can go, by the id, the cache and the scraper's answer.\<close>

lemma resolve_cases:
  obtains (unknown) "rid = ''unknown_vehicle''"
  | (cached) cached where "rid \<noteq> ''unknown_vehicle''"
      "map_of (VEHICLE_NAME_CACHE st) rid = Some cached"
  | (failed) "rid \<noteq> ''unknown_vehicle''" "map_of (VEHICLE_NAME_CACHE st) rid = None"
      "\<not> str_opt_truthy (fst (sc (get_wiki_url_from_id rid)))"
  | (scraped) n b where "rid \<noteq> ''unknown_vehicle''" "map_of (VEHICLE_NAME_CACHE st) rid = None"
      "sc (get_wiki_url_from_id rid) = (Some n, b)" "n \<noteq> []"
proof (cases "rid = ''unknown_vehicle''")
  case True then show ?thesis by (rule unknown)
next
  case nu: False
  show ?thesis
  proof (cases "map_of (VEHICLE_NAME_CACHE st) rid")
    case (Some c) with nu show ?thesis by (rule cached)
  next
    case None
    show ?thesis
    proof (cases "str_opt_truthy (fst (sc (get_wiki_url_from_id rid)))")
      case False with nu None show ?thesis by (rule failed)
    next
      case True
      then obtain n where n: "fst (sc (get_wiki_url_from_id rid)) = Some n" "n \<noteq> []"
        by (cases "fst (sc (get_wiki_url_from_id rid))") auto
      then have "sc (get_wiki_url_from_id rid) = (Some n, snd (sc (get_wiki_url_from_id rid)))"
        by (metis prod.collapse)
      with nu None n show ?thesis using scraped[of n "snd (sc (get_wiki_url_from_id rid))"] by blast
    qed
  qed
qed

lemma resolve_cache_grows:
  assumes "map_of (VEHICLE_NAME_CACHE st) k = Some x"
  shows "map_of (VEHICLE_NAME_CACHE (fst (snd (resolve_vehicle st sc rid)))) k = Some x"
proof (cases rule: resolve_cases[where rid = rid and st = st and sc = sc])
  case unknown then show ?thesis using assms by (simp add: resolve_unknown)
next
  case (cached c) then show ?thesis using assms by (simp add: resolve_cached)
next
  case failed then show ?thesis using assms by (simp add: resolve_failed)
next
  case (scraped n b)
  with assms have "k \<noteq> rid" by auto
  with scraped assms show ?thesis by (simp add: resolve_scraped map_of_dict_set)
qed

lemma resolve_lookups:
  assumes "u \<in> set (snd (snd (resolve_vehicle st sc rid)))"
  shows "u = get_wiki_url_from_id rid \<and> map_of (VEHICLE_NAME_CACHE st) rid = None"
proof (cases rule: resolve_cases[where rid = rid and st = st and sc = sc])
  case unknown then show ?thesis using assms by (simp add: resolve_unknown)
next
  case (cached c) then show ?thesis using assms by (simp add: resolve_cached)
next
  case failed then show ?thesis using assms by (simp add: resolve_failed)
next
  case (scraped n b) then show ?thesis using assms by (simp add: resolve_scraped)
qed

lemma resolve_tables:
  "VEHICLE_DISPLAY_MAP (fst (snd (resolve_vehicle st sc rid))) = VEHICLE_DISPLAY_MAP st
   \<and> GLOBAL_MAP_HASHES (fst (snd (resolve_vehicle st sc rid))) = GLOBAL_MAP_HASHES st
   \<and> start_time (fst (snd (resolve_vehicle st sc rid))) = start_time st
   \<and> last_details (fst (snd (resolve_vehicle st sc rid))) = last_details st
   \<and> last_state (fst (snd (resolve_vehicle st sc rid))) = last_state st
   \<and> last_vehicle_display (fst (snd (resolve_vehicle st sc rid))) = last_vehicle_display st
   \<and> last_image_url (fst (snd (resolve_vehicle st sc rid))) = last_image_url st
   \<and> last_br (fst (snd (resolve_vehicle st sc rid))) = last_br st
   \<and> last_map_name (fst (snd (resolve_vehicle st sc rid))) = last_map_name st"
proof (cases rule: resolve_cases[where rid = rid and st = st and sc = sc])
  case unknown then show ?thesis by (simp add: resolve_unknown)
next
  case (cached c) then show ?thesis by (simp add: resolve_cached)
next
  case failed then show ?thesis by (simp add: resolve_failed)
next
  case (scraped n b) then show ?thesis by (simp add: resolve_scraped)
qed


lemma build_computed_simps:
  "c_details (build_computed v m rid dv dbr asset name d s t) = d"
  "c_state (build_computed v m rid dv dbr asset name d s t) = s"
  "c_detected_vehicle (build_computed v m rid dv dbr asset name d s t) = dv"
  "c_detected_br (build_computed v m rid dv dbr asset name d s t) = dbr"
  "c_map_name_display (build_computed v m rid dv dbr asset name d s t) = name"
  "start (c_payload (build_computed v m rid dv dbr asset name d s t)) = t"
  "details (c_payload (build_computed v m rid dv dbr asset name d s t)) = d"
  "state (c_payload (build_computed v m rid dv dbr asset name d s t)) = s"
  by (simp_all add: build_computed_def Let_def split: prod.splits)

lemma build_computed_small:
  "small_image (c_payload (build_computed v im rid dv dbr mk mn d s t))
     = (if rid \<noteq> ''unknown_vehicle'' then Some (VEHICLE_IMAGE_BASE_URL @ rid @ ''.png'')
        else None)"
  "small_text (c_payload (build_computed v im rid dv dbr mk mn d s t))
     = (if rid \<noteq> ''unknown_vehicle''
        then Some (dv @ (if dbr \<noteq> ''N/A'' then '' BR: '' @ dbr else [])) else None)"
  by (auto simp add: build_computed_def images_def Let_def VEHICLE_IMAGE_BASE_URL_def
      split: if_splits prod.splits)

lemma tick_Inl:
  "get_raw_vehicle_id (state_data inp) (indicators_data inp) = Inl e \<Longrightarrow>
   tick v st inp =
     \<lparr>next_state = st, lookups = [], vehicle = None, saved = None, map_value = None,
      computed_view = None, published = None, crashed = Some e\<rparr>"
  by (simp add: tick_def)

lemma tick_Inr:
  assumes "get_raw_vehicle_id (state_data inp) (indicators_data inp) = Inr (rid, uid)"
    and "resolve_vehicle st (get_vehicle_name inp) rid = ((dv, dbr), st1, urls)"
    and "identify_map (GLOBAL_MAP_HASHES st1) (sha256_hash inp) = (mv, hs, added)"
  shows "tick v st inp =
           present v inp
             \<lparr>next_state = st1\<lparr>GLOBAL_MAP_HASHES := hs\<rparr>, lookups = urls,
              vehicle = map_option (\<lambda>n. (n, dbr)) dv,
              saved = (if added then Some hs else None), map_value = Some mv,
              computed_view = None, published = None, crashed = None\<rparr>
             rid uid dv dbr mv"
  using assms by (simp add: tick_def)

text \<open>Every tick either stops at step 1 or goes through steps 2 and 3 and on to step 5.\<close>

lemma tick_cases:
  obtains (id_error) e where
      "get_raw_vehicle_id (state_data inp) (indicators_data inp) = Inl e"
      "tick v st inp =
         \<lparr>next_state = st, lookups = [], vehicle = None, saved = None, map_value = None,
          computed_view = None, published = None, crashed = Some e\<rparr>"
  | (stepped) rid uid dv dbr st1 urls mv hs added where
      "get_raw_vehicle_id (state_data inp) (indicators_data inp) = Inr (rid, uid)"
      "resolve_vehicle st (get_vehicle_name inp) rid = ((dv, dbr), st1, urls)"
      "identify_map (GLOBAL_MAP_HASHES st) (sha256_hash inp) = (mv, hs, added)"
      "tick v st inp =
         present v inp
           \<lparr>next_state = st1\<lparr>GLOBAL_MAP_HASHES := hs\<rparr>, lookups = urls,
            vehicle = map_option (\<lambda>n. (n, dbr)) dv,
            saved = (if added then Some hs else None), map_value = Some mv,
            computed_view = None, published = None, crashed = None\<rparr>
           rid uid dv dbr mv"
proof (cases "get_raw_vehicle_id (state_data inp) (indicators_data inp)")
  case (Inl e)
  then show ?thesis using tick_Inl[OF Inl] id_error by blast
next
  case (Inr p)
  obtain rid uid where p: "p = (rid, uid)" by (cases p)
  obtain dv dbr st1 urls where
    rv: "resolve_vehicle st (get_vehicle_name inp) rid = ((dv, dbr), st1, urls)"
    by (metis prod.exhaust)
  obtain mv hs added where
    im: "identify_map (GLOBAL_MAP_HASHES st1) (sha256_hash inp) = (mv, hs, added)"
    by (metis prod.exhaust)
  have "GLOBAL_MAP_HASHES st1 = GLOBAL_MAP_HASHES st"
    using resolve_tables[of st "get_vehicle_name inp" rid] rv by simp
  with im have im': "identify_map (GLOBAL_MAP_HASHES st) (sha256_hash inp) = (mv, hs, added)"
    by simp
  from Inr p have g: "get_raw_vehicle_id (state_data inp) (indicators_data inp) = Inr (rid, uid)"
    by simp
  show ?thesis using stepped[OF g rv im' tick_Inr[OF g rv im]] .
qed

lemma present_publish:
  assumes "computed_view (present v inp r rid uid name dbr mv) = Some c"
    and "computed_view r = None" and "published r = None"
  shows "(published (present v inp r rid uid name dbr mv) \<noteq> None)
           = ((c_details c, c_state c, c_detected_vehicle c, large_image (c_payload c),
               c_detected_br c, c_map_name_display c)
              \<noteq> (last_details (next_state r), last_state (next_state r),
                  last_vehicle_display (next_state r), last_image_url (next_state r),
                  last_br (next_state r), last_map_name (next_state r)))
         \<and> (published (present v inp r rid uid name dbr mv) = None
             \<or> published (present v inp r rid uid name dbr mv) = Some (c_payload c))
         \<and> (last_details (next_state (present v inp r rid uid name dbr mv)),
            last_state (next_state (present v inp r rid uid name dbr mv)),
            last_vehicle_display (next_state (present v inp r rid uid name dbr mv)),
            last_image_url (next_state (present v inp r rid uid name dbr mv)),
            last_br (next_state (present v inp r rid uid name dbr mv)),
            last_map_name (next_state (present v inp r rid uid name dbr mv)))
           = (c_details c, c_state c, c_detected_vehicle c, large_image (c_payload c),
              c_detected_br c, c_map_name_display c)
         \<and> name = Some (c_detected_vehicle c) \<and> c_detected_br c = dbr
         \<and> details (c_payload c) = c_details c \<and> state (c_payload c) = c_state c
         \<and> small_image (c_payload c)
             = (if rid \<noteq> ''unknown_vehicle''
                then Some (VEHICLE_IMAGE_BASE_URL @ rid @ ''.png'') else None)
         \<and> small_text (c_payload c)
             = (if rid \<noteq> ''unknown_vehicle''
                then Some (c_detected_vehicle c
                           @ (if c_detected_br c \<noteq> ''N/A'' then '' BR: '' @ c_detected_br c
                              else []))
                else None)
         \<and> (\<exists>mn. get_status_message (state_data inp) (mission_data inp) (c_detected_vehicle c)
                     mn uid = Inr (c_details c, c_state c))"
proof (cases name)
  case None
  with assms show ?thesis by (simp add: present_def)
next
  case (Some dv)
  show ?thesis
  proof (cases "map_display (url_netloc_ok inp) mv (sha256_hash inp)")
    case (Inl e)
    with Some assms show ?thesis by (simp add: present_def)
  next
    case (Inr p)
    obtain asset mname where p: "p = (asset, mname)" by (cases p)
    show ?thesis
    proof (cases "get_status_message (state_data inp) (mission_data inp) dv mname uid")
      case (Inl e)
      with Some Inr p assms show ?thesis by (simp add: present_def)
    next
      case inr2: (Inr q)
      obtain d s where q: "q = (d, s)" by (cases q)
      define st3 where "st3 = (if mname = ''Hangar''
                            then (next_state r)\<lparr>start_time := now inp\<rparr> else next_state r)"
      define c' where "c' = build_computed v (is_in_mission (mission_data inp)) rid
                         dv dbr asset mname d s (start_time st3)"
      have pr: "present v inp r rid uid name dbr mv = update_rpc r st3 c'"
        using Some Inr p inr2 q by (simp add: present_def st3_def c'_def Let_def)
      with assms(1) have cc: "c = c'" by (simp add: update_rpc_def split: if_splits)
      have l: "last_details st3 = last_details (next_state r)"
        "last_state st3 = last_state (next_state r)"
        "last_vehicle_display st3 = last_vehicle_display (next_state r)"
        "last_image_url st3 = last_image_url (next_state r)"
        "last_br st3 = last_br (next_state r)"
        "last_map_name st3 = last_map_name (next_state r)"
        by (simp_all add: st3_def)
      have dd: "c_detected_vehicle c' = dv" "c_detected_br c' = dbr"
        "details (c_payload c') = c_details c'" "state (c_payload c') = c_state c'"
        "c_details c' = d" "c_state c' = s"
        by (simp_all add: c'_def build_computed_simps)
      have sm: "small_image (c_payload c')
                  = (if rid \<noteq> ''unknown_vehicle''
                     then Some (VEHICLE_IMAGE_BASE_URL @ rid @ ''.png'') else None)"
        "small_text (c_payload c')
           = (if rid \<noteq> ''unknown_vehicle''
              then Some (c_detected_vehicle c'
                         @ (if c_detected_br c' \<noteq> ''N/A'' then '' BR: '' @ c_detected_br c'
                            else []))
              else None)"
        unfolding dd(1,2) unfolding c'_def by (rule build_computed_small)+
      have gs: "\<exists>mn. get_status_message (state_data inp) (mission_data inp)
                  (c_detected_vehicle c') mn uid = Inr (c_details c', c_state c')"
        using inr2 q dd by auto
      show ?thesis
        unfolding pr cc using assms(3) l dd(1-4) gs sm Some
        by (auto simp add: update_rpc_def rpc_data_changed_def remember_def)
    qed
  qed
qed

text \<open>A tick without a call leaves the remembered values as they were.\<close>

lemma present_silent:
  assumes "published (present v inp r rid uid name dbr mv) = None" and "published r = None"
  shows "last_details (next_state (present v inp r rid uid name dbr mv))
           = last_details (next_state r)
       \<and> last_state (next_state (present v inp r rid uid name dbr mv))
           = last_state (next_state r)
       \<and> last_vehicle_display (next_state (present v inp r rid uid name dbr mv))
           = last_vehicle_display (next_state r)
       \<and> last_image_url (next_state (present v inp r rid uid name dbr mv))
           = last_image_url (next_state r)
       \<and> last_br (next_state (present v inp r rid uid name dbr mv)) = last_br (next_state r)
       \<and> last_map_name (next_state (present v inp r rid uid name dbr mv))
           = last_map_name (next_state r)"
  using assms
  by (auto simp add: present_def update_rpc_def Let_def
      split: option.splits sum.splits prod.splits if_splits)

lemma present_published:
  assumes "published (present v inp r rid uid name dbr mv) = Some p" and "published r = None"
    and "computed_view r = None"
  shows "\<exists>c. computed_view (present v inp r rid uid name dbr mv) = Some c"
  using assms
  by (auto simp add: present_def update_rpc_def Let_def
      split: option.splits sum.splits prod.splits if_splits)

lemma tick_cache_grows:
  assumes "map_of (VEHICLE_NAME_CACHE st) k = Some x"
  shows "map_of (VEHICLE_NAME_CACHE (next_state (tick v st inp))) k = Some x"
proof (cases rule: tick_cases[where inp = inp and v = v and st = st])
  case (id_error e)
  with assms show ?thesis by simp
next
  case (stepped rid uid dv dbr st1 urls mv hs added)
  have "map_of (VEHICLE_NAME_CACHE st1) k = Some x"
    using resolve_cache_grows[OF assms, of "get_vehicle_name inp" rid] stepped(2) by simp
  then show ?thesis unfolding stepped(4) by (simp add: present_simps)
qed

lemma tick_display_map:
  "VEHICLE_DISPLAY_MAP (next_state (tick v st inp)) = VEHICLE_DISPLAY_MAP st"
proof (cases rule: tick_cases[where inp = inp and v = v and st = st])
  case (id_error e)
  then show ?thesis by simp
next
  case (stepped rid uid dv dbr st1 urls mv hs added)
  have "VEHICLE_DISPLAY_MAP st1 = VEHICLE_DISPLAY_MAP st"
    using resolve_tables[of st "get_vehicle_name inp" rid] stepped(2) by simp
  then show ?thesis unfolding stepped(4) by (simp add: present_simps)
qed

lemma tick_lookups:
  assumes "u \<in> set (lookups (tick v st inp))"
  shows "\<exists>rid uid. get_raw_vehicle_id (state_data inp) (indicators_data inp) = Inr (rid, uid)
           \<and> u = get_wiki_url_from_id rid \<and> map_of (VEHICLE_NAME_CACHE st) rid = None"
proof (cases rule: tick_cases[where inp = inp and v = v and st = st])
  case (id_error e)
  with assms show ?thesis by simp
next
  case (stepped rid uid dv dbr st1 urls mv hs added)
  from assms have "u \<in> set urls" unfolding stepped(4) by (simp add: present_simps)
  then have "u = get_wiki_url_from_id rid \<and> map_of (VEHICLE_NAME_CACHE st) rid = None"
    using resolve_lookups[of u st "get_vehicle_name inp" rid] stepped(2) by simp
  with stepped(1) show ?thesis by blast
qed

text \<open>A tick that observes an id and has finished step 2 through a known branch.\<close>

lemma tick_observes:
  assumes g: "get_raw_vehicle_id (state_data inp) (indicators_data inp) = Inr (rid, uid)"
    and rv: "resolve_vehicle st (get_vehicle_name inp) rid = ((dv, dbr), st1, urls)"
  shows "lookups (tick v st inp) = urls
         \<and> vehicle (tick v st inp) = map_option (\<lambda>n. (n, dbr)) dv
         \<and> VEHICLE_NAME_CACHE (next_state (tick v st inp)) = VEHICLE_NAME_CACHE st1"
proof (cases rule: tick_cases[where inp = inp and v = v and st = st])
  case (id_error e)
  with g show ?thesis by simp
next
  case (stepped rid' uid' dv' dbr' st1' urls' mv hs added)
  with g rv have eq: "rid' = rid" "uid' = uid" "dv' = dv" "dbr' = dbr" "st1' = st1" "urls' = urls"
    by simp_all
  show ?thesis unfolding stepped(4) eq by (simp add: present_simps)
qed







lemma py_in_hash_nonempty:
  assumes "py_in HANGAR_HASH h"
  shows "h \<noteq> []"
proof -
  have "HANGAR_HASH \<noteq> []" by (simp add: HANGAR_HASH_def)
  with py_in_nonempty[OF assms] show ?thesis by blast
qed

lemma not_in_mission_is_no_url: "\<not> is_url ''Not in Mission''"
  by code_simp

lemma map_display_hangar:
  assumes "py_in HANGAR_HASH h"
  shows "map_display ok ''Not in Mission'' (Some h) = Inr (''Not in Mission'', ''Hangar'')"
  using assms py_in_hash_nonempty[OF assms] not_in_mission_is_no_url
  by (simp add: map_display_def)

lemma identify_map_labelled:
  assumes "h \<noteq> []" and "map_of T h = Some ''Not in Mission''"
  shows "identify_map T (Some h) = (''Not in Mission'', T, False)"
  using assms by (simp add: identify_map_def Let_def lookup_map_name_def)

lemma hangar_status:
  "get_status_message sd md dv ''Hangar'' uid =
     Inr (if \<not> dict_truthy sd then (''Offline'', ''Waiting for game...'')
          else if dv \<noteq> ''Unknown Vehicle'' then (''Idle in Hangar'', ''Inspecting '' @ dv)
          else (''In Main Menu/Hangar'', ''Waiting for vehicle selection''))"
  by (simp add: get_status_message_def Let_def)

section \<open>Lemmas about title case\<close>

text \<open>
  A default vehicle name is in title case, so that no \<open>R\<close> follows a \<open>B\<close> in it: it cannot
  be taken for a name followed by a rating.
\<close>

lemma lower_char_not_upper: "\<not> py_isupper (lower_char c)"
proof (cases "py_isupper c")
  case False
  then show ?thesis by (simp add: lower_char_def)
next
  case True
  then have r: "(65 \<le> (of_char c :: nat) \<and> (of_char c :: nat) \<le> 90)
             \<or> (192 \<le> (of_char c :: nat) \<and> (of_char c :: nat) \<le> 222)"
    by (auto simp add: py_isupper_def Let_def)
  then have "(of_char c + (32::nat)) mod 256 = of_char c + 32" by auto
  then have "(of_char (char_of (of_char c + (32::nat))) :: nat) = of_char c + 32"
    by simp
  with r True show ?thesis
    by (auto simp add: lower_char_def py_isupper_def Let_def)
qed

lemma upper_B_R: "py_isupper CHR ''B''" "py_isupper CHR ''R''"
  by (simp_all add: py_isupper_def)

lemma cased_B_R: "py_iscased CHR ''B''" "py_iscased CHR ''R''"
  by (simp_all add: py_iscased_def)

lemma title_hd:
  assumes "title_from True cs = Some ts"
  shows "ts = [] \<or> hd ts \<noteq> CHR ''R''"
proof (cases cs)
  case Nil
  with assms show ?thesis by simp
next
  case (Cons d ds)
  show ?thesis
  proof (cases "py_iscased d")
    case True
    with assms Cons obtain ts' where "ts = lower_char d # ts'"
      by (auto split: option.splits)
    with lower_char_not_upper[of d] upper_B_R(2) show ?thesis by auto
  next
    case False
    with assms Cons obtain ts' where "ts = d # ts'" by auto
    with False cased_B_R(2) show ?thesis by auto
  qed
qed

lemma title_no_BR:
  assumes "title_from prev s = Some t"
  shows "t \<noteq> xs @ CHR ''B'' # CHR ''R'' # ys"
  using assms
proof (induction s arbitrary: prev t xs)
  case Nil
  then show ?case by simp
next
  case (Cons c cs)
  show ?case
  proof (cases "py_iscased c")
    case False
    with Cons.prems obtain ts where ts: "title_from False cs = Some ts" "t = c # ts" by auto
    show ?thesis
    proof
      assume "t = xs @ CHR ''B'' # CHR ''R'' # ys"
      with ts(2) have "c # ts = xs @ CHR ''B'' # CHR ''R'' # ys" by simp
      then consider "xs = []" "c = CHR ''B''"
        | xs' where "ts = xs' @ CHR ''B'' # CHR ''R'' # ys"
        by (auto simp add: Cons_eq_append_conv)
      then show False
      proof cases
        case 1
        with False cased_B_R(1) show False by simp
      next
        case 2
        with Cons.IH[OF ts(1)] show False by blast
      qed
    qed
  next
    case cased: True
    show ?thesis
    proof (cases prev)
      case True
      with cased Cons.prems obtain ts where
        ts: "title_from True cs = Some ts" "t = lower_char c # ts"
        by auto
      show ?thesis
      proof
        assume "t = xs @ CHR ''B'' # CHR ''R'' # ys"
        with ts(2) have "lower_char c # ts = xs @ CHR ''B'' # CHR ''R'' # ys" by simp
        then consider "xs = []" "lower_char c = CHR ''B''"
          | xs' where "ts = xs' @ CHR ''B'' # CHR ''R'' # ys"
          by (auto simp add: Cons_eq_append_conv)
        then show False
        proof cases
          case 1
          with lower_char_not_upper[of c] upper_B_R(1) show False by simp
        next
          case 2
          with Cons.IH[OF ts(1)] show False by blast
        qed
      qed
    next
      case False
      with cased Cons.prems obtain tc ts where
        ts: "title_char c = Some tc" "title_from True cs = Some ts" "t = tc @ ts"
        by (auto split: option.splits)
      from ts(1) consider u where "tc = [u]" | "tc = ''Ss''"
        by (auto simp add: title_char_def Let_def split: if_splits)
      then show ?thesis
      proof cases
        case 1
        show ?thesis
        proof
          assume "t = xs @ CHR ''B'' # CHR ''R'' # ys"
          with ts(3) 1 have "u # ts = xs @ CHR ''B'' # CHR ''R'' # ys" by simp
          then consider "ts = CHR ''R'' # ys"
            | xs' where "ts = xs' @ CHR ''B'' # CHR ''R'' # ys"
            by (auto simp add: Cons_eq_append_conv)
          then show False
          proof cases
            case 1
            with title_hd[OF ts(2)] show False by simp
          next
            case 2
            with Cons.IH[OF ts(2)] show False by blast
          qed
        qed
      next
        case 2
        show ?thesis
        proof
          assume "t = xs @ CHR ''B'' # CHR ''R'' # ys"
          with ts(3) 2 have "CHR ''S'' # CHR ''s'' # ts = xs @ CHR ''B'' # CHR ''R'' # ys"
            by simp
          then obtain xs' where "ts = xs' @ CHR ''B'' # CHR ''R'' # ys"
            by (auto simp add: Cons_eq_append_conv)
          with Cons.IH[OF ts(2)] show False by blast
        qed
      qed
    qed
  qed
qed

lemma py_strip_infix: "\<exists>pre post. s = pre @ py_strip s @ post"
proof -
  define u where "u = dropWhile py_isspace s"
  define w where "w = rev u"
  have "rev (dropWhile py_isspace w) @ rev (takeWhile py_isspace w)
          = rev (takeWhile py_isspace w @ dropWhile py_isspace w)"
    by (simp only: rev_append)
  also have "\<dots> = rev w" by (simp only: takeWhile_dropWhile_id)
  also have "\<dots> = u" by (simp add: w_def)
  finally have "u = py_strip s @ rev (takeWhile py_isspace w)"
    by (simp add: py_strip_def u_def w_def)
  moreover have "s = takeWhile py_isspace s @ u" by (simp add: u_def)
  ultimately have "s = takeWhile py_isspace s @ py_strip s @ rev (takeWhile py_isspace w)"
    by simp
  then show ?thesis by blast
qed

lemma default_name_no_rating:
  assumes "get_default_display_name rid = Some D"
  shows "D \<noteq> n @ '' BR: '' @ b"
proof (cases "rid = ''unknown_vehicle''")
  case True
  with assms have "D = ''Unknown Vehicle''" by (simp add: get_default_display_name_def)
  then have "CHR ''B'' \<notin> set D" by simp
  then show ?thesis by auto
next
  case False
  with assms obtain t where t: "py_title (py_replace CHR ''_'' '' '' rid) = Some t"
    "D = py_strip t"
    by (auto simp add: get_default_display_name_def)
  from py_strip_infix[of t] t(2) obtain pre post where "t = pre @ D @ post" by auto
  show ?thesis
  proof
    assume "D = n @ '' BR: '' @ b"
    with \<open>t = pre @ D @ post\<close>
    have "t = (pre @ n @ '' '') @ CHR ''B'' # CHR ''R'' # ('': '' @ b @ post)" by simp
    with title_no_BR[OF t(1)[unfolded py_title_def]] show False by blast
  qed
qed

lemma tooltip_of_default:
  assumes "get_default_display_name rid = Some D"
    and "D = n @ (if b \<noteq> ''N/A'' then '' BR: '' @ b else [])"
  shows "b = ''N/A'' \<and> n = D"
  using assms default_name_no_rating[OF assms(1), of n b] by (auto split: if_splits)

section \<open>Lemmas about the update check\<close>

lemma status_headline_nonempty:
  "get_status_message sd md dv mn uid = Inr (d, s) \<Longrightarrow> d \<noteq> []"
  by (auto simp add: get_status_message_def mission_message_def Let_def
      split: if_splits json.splits option.splits)

lemma rpc_data_changed_values:
  "rpc_data_changed st c = (compared_values c \<noteq> remembered_values st)"
  by (auto simp add: rpc_data_changed_def compared_values_def remembered_values_def)

text \<open>The update check of one tick, against the values that the state remembers.\<close>

lemma tick_update_check:
  assumes "computed_view (tick v st inp) = Some c"
  shows "(published (tick v st inp) \<noteq> None) = (compared_values c \<noteq> remembered_values st)"
    and "published (tick v st inp) = None \<or> published (tick v st inp) = Some (c_payload c)"
    and "remembered_values (next_state (tick v st inp)) = compared_values c"
    and "coherent (tick v st inp) c"
proof -
  have "((published (tick v st inp) \<noteq> None) = (compared_values c \<noteq> remembered_values st))
        \<and> (published (tick v st inp) = None \<or> published (tick v st inp) = Some (c_payload c))
        \<and> remembered_values (next_state (tick v st inp)) = compared_values c
        \<and> coherent (tick v st inp) c"
  proof (cases rule: tick_cases[where inp = inp and v = v and st = st])
    case (id_error e)
    with assms show ?thesis by simp
  next
    case (stepped rid uid dv dbr st1 urls mv hs added)
    let ?r = "\<lparr>next_state = st1\<lparr>GLOBAL_MAP_HASHES := hs\<rparr>, lookups = urls,
              vehicle = map_option (\<lambda>n. (n, dbr)) dv,
              saved = (if added then Some hs else None), map_value = Some mv,
              computed_view = None, published = None, crashed = None\<rparr>"
    have st1: "last_details st1 = last_details st" "last_state st1 = last_state st"
      "last_vehicle_display st1 = last_vehicle_display st" "last_image_url st1 = last_image_url st"
      "last_br st1 = last_br st" "last_map_name st1 = last_map_name st"
      using resolve_tables[of st "get_vehicle_name inp" rid] stepped(2) by simp_all
    have cv: "computed_view (present v inp ?r rid uid dv dbr mv) = Some c"
      using assms stepped(4) by simp
    have n1: "computed_view ?r = None" and n2: "published ?r = None" by simp_all
    note pp = present_publish[OF cv n1 n2]
    have veh: "vehicle (present v inp ?r rid uid dv dbr mv)
                 = Some (c_detected_vehicle c, c_detected_br c)"
      using pp by (simp add: present_simps)
    from pp obtain mn where
      "get_status_message (state_data inp) (mission_data inp) (c_detected_vehicle c) mn uid
         = Inr (c_details c, c_state c)"
      by blast
    then have ne: "c_details c \<noteq> []" by (rule status_headline_nonempty)
    let ?p = "present v inp ?r rid uid dv dbr mv"
    have a: "(published ?p \<noteq> None) = (compared_values c \<noteq> remembered_values st)"
      using pp[THEN conjunct1] st1 by (simp add: compared_values_def remembered_values_def)
    have b: "published ?p = None \<or> published ?p = Some (c_payload c)"
      by (rule pp[THEN conjunct2, THEN conjunct1])
    have r: "remembered_values (next_state ?p) = compared_values c"
      using pp[THEN conjunct2, THEN conjunct2, THEN conjunct1]
      by (simp add: compared_values_def remembered_values_def)
    have d: "coherent ?p c"
      unfolding coherent_def
      using cv veh ne pp[THEN conjunct2, THEN conjunct2, THEN conjunct2] by blast
    show ?thesis
      unfolding stepped(4) using a b r d by blast
  qed
  then show "(published (tick v st inp) \<noteq> None) = (compared_values c \<noteq> remembered_values st)"
    and "published (tick v st inp) = None \<or> published (tick v st inp) = Some (c_payload c)"
    and "remembered_values (next_state (tick v st inp)) = compared_values c"
    and "coherent (tick v st inp) c"
    by simp_all
qed

lemma tick_silent:
  assumes "published (tick v st inp) = None"
  shows "remembered_values (next_state (tick v st inp)) = remembered_values st"
proof (cases rule: tick_cases[where inp = inp and v = v and st = st])
  case (id_error e)
  then show ?thesis by simp
next
  case (stepped rid uid dv dbr st1 urls mv hs added)
  let ?r = "\<lparr>next_state = st1\<lparr>GLOBAL_MAP_HASHES := hs\<rparr>, lookups = urls,
            vehicle = map_option (\<lambda>n. (n, dbr)) dv,
            saved = (if added then Some hs else None), map_value = Some mv,
            computed_view = None, published = None, crashed = None\<rparr>"
  have st1: "last_details st1 = last_details st" "last_state st1 = last_state st"
    "last_vehicle_display st1 = last_vehicle_display st" "last_image_url st1 = last_image_url st"
    "last_br st1 = last_br st" "last_map_name st1 = last_map_name st"
    using resolve_tables[of st "get_vehicle_name inp" rid] stepped(2) by simp_all
  have p: "published (present v inp ?r rid uid dv dbr mv) = None"
    using assms stepped(4) by simp
  show ?thesis
    unfolding stepped(4) remembered_values_def
    using present_silent[OF p] st1 by simp
qed

lemma tick_published:
  assumes "published (tick v st inp) = Some p"
  shows "\<exists>c. computed_view (tick v st inp) = Some c"
proof (cases rule: tick_cases[where inp = inp and v = v and st = st])
  case (id_error e)
  with assms show ?thesis by simp
next
  case (stepped rid uid dv dbr st1 urls mv hs added)
  let ?r = "\<lparr>next_state = st1\<lparr>GLOBAL_MAP_HASHES := hs\<rparr>, lookups = urls,
            vehicle = map_option (\<lambda>n. (n, dbr)) dv,
            saved = (if added then Some hs else None), map_value = Some mv,
            computed_view = None, published = None, crashed = None\<rparr>"
  have p: "published (present v inp ?r rid uid dv dbr mv) = Some p"
    using assms stepped(4) by simp
  show ?thesis
    unfolding stepped(4) using present_published[OF p] by simp
qed

text \<open>Where a tick has the vehicle from, when no manual override is set.\<close>

lemma tick_vehicle_source:
  assumes dm: "VEHICLE_DISPLAY_MAP st = []" and cv: "computed_view (tick v st inp) = Some c"
  shows "\<exists>rid. small_image (c_payload c)
                 = (if rid \<noteq> ''unknown_vehicle''
                    then Some (VEHICLE_IMAGE_BASE_URL @ rid @ ''.png'') else None)
            \<and> small_text (c_payload c)
                 = (if rid \<noteq> ''unknown_vehicle''
                    then Some (c_detected_vehicle c
                               @ (if c_detected_br c \<noteq> ''N/A'' then '' BR: '' @ c_detected_br c
                                  else []))
                    else None)
            \<and> (if rid = ''unknown_vehicle''
                then vehicle (tick v st inp) = Some (''Unknown Vehicle'', ''N/A'')
                else (\<exists>D. get_default_display_name rid = Some D
                          \<and> vehicle (tick v st inp) = Some (D, ''N/A''))
                     \<or> (\<exists>entry. map_of (VEHICLE_NAME_CACHE (next_state (tick v st inp))) rid
                                   = Some entry
                                 \<and> vehicle (tick v st inp) = Some entry))
            \<and> (\<forall>entry. rid \<noteq> ''unknown_vehicle''
                        \<and> map_of (VEHICLE_NAME_CACHE st) rid = Some entry
                  \<longrightarrow> vehicle (tick v st inp) = Some entry)"
proof (cases rule: tick_cases[where inp = inp and v = v and st = st])
  case (id_error e)
  with cv show ?thesis by simp
next
  case (stepped rid uid name dbr st1 urls mv hs added)
  let ?r = "\<lparr>next_state = st1\<lparr>GLOBAL_MAP_HASHES := hs\<rparr>, lookups = urls,
            vehicle = map_option (\<lambda>n. (n, dbr)) name,
            saved = (if added then Some hs else None), map_value = Some mv,
            computed_view = None, published = None, crashed = None\<rparr>"
  have cv': "computed_view (present v inp ?r rid uid name dbr mv) = Some c"
    using cv stepped(4) by simp
  have n1: "computed_view ?r = None" and n2: "published ?r = None" by simp_all
  note pp = present_publish[OF cv' n1 n2]
  from pp have small: "small_image (c_payload c)
                 = (if rid \<noteq> ''unknown_vehicle''
                    then Some (VEHICLE_IMAGE_BASE_URL @ rid @ ''.png'') else None)"
    "small_text (c_payload c)
                 = (if rid \<noteq> ''unknown_vehicle''
                    then Some (c_detected_vehicle c
                               @ (if c_detected_br c \<noteq> ''N/A'' then '' BR: '' @ c_detected_br c
                                  else []))
                    else None)"
    by blast+
  from pp have name: "name \<noteq> None" by auto
  note obs = tick_observes[OF stepped(1) stepped(2), of v]
  have src: "(if rid = ''unknown_vehicle''
                then vehicle (tick v st inp) = Some (''Unknown Vehicle'', ''N/A'')
                else (\<exists>D. get_default_display_name rid = Some D
                          \<and> vehicle (tick v st inp) = Some (D, ''N/A''))
                     \<or> (\<exists>entry. map_of (VEHICLE_NAME_CACHE (next_state (tick v st inp))) rid
                                   = Some entry
                                 \<and> vehicle (tick v st inp) = Some entry))
            \<and> (\<forall>entry. rid \<noteq> ''unknown_vehicle''
                        \<and> map_of (VEHICLE_NAME_CACHE st) rid = Some entry
                  \<longrightarrow> vehicle (tick v st inp) = Some entry)"
  proof (cases rule: resolve_cases[where rid = rid and st = st and sc = "get_vehicle_name inp"])
    case unknown
    from stepped(2) resolve_unknown[of st "get_vehicle_name inp"] dm unknown
    have "name = Some ''Unknown Vehicle''" "dbr = ''N/A''" by simp_all
    with obs unknown show ?thesis by simp
  next
    case (cached entry)
    from stepped(2) resolve_cached[OF cached(2) cached(1), of "get_vehicle_name inp"] dm
    have "name = Some (fst entry)" "dbr = snd entry"
      "VEHICLE_NAME_CACHE st1 = VEHICLE_NAME_CACHE st"
      by auto
    with obs cached show ?thesis by simp
  next
    case failed
    from stepped(2) resolve_failed[where sc = "get_vehicle_name inp", OF failed(2) failed(1) failed(3)] dm
    have "name = get_default_display_name rid" "dbr = ''N/A''" by simp_all
    with obs failed name show ?thesis by auto
  next
    case (scraped n b)
    from stepped(2)
      resolve_scraped[where sc = "get_vehicle_name inp", OF scraped(2) scraped(1) scraped(3) scraped(4)]
      dm
    have "name = Some n"
      "VEHICLE_NAME_CACHE st1 = dict_set rid (n, dbr) (VEHICLE_NAME_CACHE st)"
      by auto
    with obs scraped show ?thesis by (simp add: map_of_dict_set)
  qed
  from small src show ?thesis by blast
qed

lemma shown_from_later:
  assumes "shown_from st r c"
    and "\<And>k x. map_of (VEHICLE_NAME_CACHE st) k = Some x
           \<Longrightarrow> map_of (VEHICLE_NAME_CACHE st') k = Some x"
  shows "shown_from st' r c"
proof -
  from assms(1) obtain rid where
    a: "small_image (c_payload c)
               = (if rid \<noteq> ''unknown_vehicle''
                  then Some (VEHICLE_IMAGE_BASE_URL @ rid @ ''.png'') else None)"
    "small_text (c_payload c)
               = (if rid \<noteq> ''unknown_vehicle''
                  then Some (c_detected_vehicle c
                             @ (if c_detected_br c \<noteq> ''N/A'' then '' BR: '' @ c_detected_br c
                                else []))
                  else None)"
    and b: "if rid = ''unknown_vehicle''
              then vehicle r = Some (''Unknown Vehicle'', ''N/A'')
              else (\<exists>D. get_default_display_name rid = Some D \<and> vehicle r = Some (D, ''N/A''))
                   \<or> (\<exists>entry. map_of (VEHICLE_NAME_CACHE st) rid = Some entry
                               \<and> vehicle r = Some entry)"
    unfolding shown_from_def by blast
  from b assms(2)
  have "if rid = ''unknown_vehicle''
              then vehicle r = Some (''Unknown Vehicle'', ''N/A'')
              else (\<exists>D. get_default_display_name rid = Some D \<and> vehicle r = Some (D, ''N/A''))
                   \<or> (\<exists>entry. map_of (VEHICLE_NAME_CACHE st') rid = Some entry
                               \<and> vehicle r = Some entry)"
    by (auto split: if_splits)
  with a show ?thesis unfolding shown_from_def by blast
qed

text \<open>Each tick keeps the invariant.\<close>

lemma tick_keeps_invariant:
  assumes "publication_invariant st lp"
  shows "publication_invariant (next_state (tick v st inp))
           (if published (tick v st inp) \<noteq> None then Some (tick v st inp) else lp)"
proof (cases "published (tick v st inp)")
  case None
  from assms have dm: "VEHICLE_DISPLAY_MAP st = []" by (simp add: publication_invariant_def)
  have later: "shown_from (next_state (tick v st inp)) r' l" if "shown_from st r' l" for r' l
    using that tick_cache_grows by (rule shown_from_later)
  from assms tick_silent[OF None] None dm later show ?thesis
    by (auto simp add: publication_invariant_def tick_display_map split: option.splits)
next
  case (Some p)
  from assms have dm: "VEHICLE_DISPLAY_MAP st = []" by (simp add: publication_invariant_def)
  from tick_published[OF Some] obtain c where cv: "computed_view (tick v st inp) = Some c" ..
  from tick_update_check(2)[OF cv] Some have "published (tick v st inp) = Some (c_payload c)"
    by simp
  moreover have "shown_from (next_state (tick v st inp)) (tick v st inp) c"
    unfolding shown_from_def using tick_vehicle_source[OF dm cv] by blast
  ultimately show ?thesis
    using tick_update_check(3,4)[OF cv] dm
    by (auto simp add: publication_invariant_def tick_display_map)
qed

text \<open>
  A tick whose payload has the small image and the small image text of the last payload
  that was sent shows the same vehicle.
\<close>

lemma same_small_same_vehicle:
  assumes dm: "VEHICLE_DISPLAY_MAP st = []" and cv: "computed_view (tick v st inp) = Some c"
    and l: "coherent r' l" "shown_from st r' l"
    and e: "small_image (c_payload c) = small_image (c_payload l)"
      "small_text (c_payload c) = small_text (c_payload l)"
  shows "vehicle (tick v st inp) = vehicle r'"
proof -
  let ?r = "tick v st inp"
  from tick_vehicle_source[OF dm cv] obtain rid where
    s: "small_image (c_payload c)
          = (if rid \<noteq> ''unknown_vehicle''
             then Some (VEHICLE_IMAGE_BASE_URL @ rid @ ''.png'') else None)"
    "small_text (c_payload c)
       = (if rid \<noteq> ''unknown_vehicle''
          then Some (c_detected_vehicle c
                     @ (if c_detected_br c \<noteq> ''N/A'' then '' BR: '' @ c_detected_br c else []))
          else None)"
    and v: "if rid = ''unknown_vehicle''
            then vehicle ?r = Some (''Unknown Vehicle'', ''N/A'')
            else (\<exists>D. get_default_display_name rid = Some D \<and> vehicle ?r = Some (D, ''N/A''))
                 \<or> (\<exists>entry. map_of (VEHICLE_NAME_CACHE (next_state ?r)) rid = Some entry
                             \<and> vehicle ?r = Some entry)"
    and f: "\<forall>entry. rid \<noteq> ''unknown_vehicle'' \<and> map_of (VEHICLE_NAME_CACHE st) rid = Some entry
              \<longrightarrow> vehicle ?r = Some entry"
    by blast
  from l(2) obtain rid' where
    s': "small_image (c_payload l)
          = (if rid' \<noteq> ''unknown_vehicle''
             then Some (VEHICLE_IMAGE_BASE_URL @ rid' @ ''.png'') else None)"
    "small_text (c_payload l)
       = (if rid' \<noteq> ''unknown_vehicle''
          then Some (c_detected_vehicle l
                     @ (if c_detected_br l \<noteq> ''N/A'' then '' BR: '' @ c_detected_br l else []))
          else None)"
    and v': "if rid' = ''unknown_vehicle''
            then vehicle r' = Some (''Unknown Vehicle'', ''N/A'')
            else (\<exists>D. get_default_display_name rid' = Some D \<and> vehicle r' = Some (D, ''N/A''))
                 \<or> (\<exists>entry. map_of (VEHICLE_NAME_CACHE st) rid' = Some entry
                             \<and> vehicle r' = Some entry)"
    unfolding shown_from_def by blast
  have ids: "rid' = rid"
    using e(1) s(1) s'(1) by (auto split: if_splits)
  have vc: "vehicle ?r = Some (c_detected_vehicle c, c_detected_br c)"
    using tick_update_check(4)[OF cv] by (simp add: coherent_def)
  have vl: "vehicle r' = Some (c_detected_vehicle l, c_detected_br l)"
    using l(1) by (simp add: coherent_def)
  show ?thesis
  proof (cases "rid = ''unknown_vehicle''")
    case True
    with v v' ids show ?thesis by simp
  next
    case known: False
    from v' ids known consider
      (default) D where "get_default_display_name rid = Some D" "vehicle r' = Some (D, ''N/A'')"
      | (cached) entry where "map_of (VEHICLE_NAME_CACHE st) rid = Some entry"
          "vehicle r' = Some entry"
      by auto
    then show ?thesis
    proof cases
      case cached
      with f known show ?thesis by simp
    next
      case default
      from default(2) vl have dl: "c_detected_vehicle l = D" "c_detected_br l = ''N/A''"
        by simp_all
      from e(2) s(2) s'(2) ids known dl
      have "D = c_detected_vehicle c
                @ (if c_detected_br c \<noteq> ''N/A'' then '' BR: '' @ c_detected_br c else [])"
        by simp
      from tooltip_of_default[OF default(1) this] vc default(2) show ?thesis by simp
    qed
  qed
qed

text \<open>
  What the update check of a tick does, in terms of the last tick that called
  \<open>RPC.update\<close>.
\<close>

lemma tick_decides:
  assumes inv: "publication_invariant st lp" and cv: "computed_view (tick v st inp) = Some c"
  shows "case lp of
           None \<Rightarrow> published (tick v st inp) = Some (c_payload c)
         | Some r' \<Rightarrow>
             (\<exists>l. computed_view r' = Some l \<and> published r' = Some (c_payload l)
                \<and> ((details (c_payload c) \<noteq> details (c_payload l)
                     \<or> state (c_payload c) \<noteq> state (c_payload l)
                     \<or> large_image (c_payload c) \<noteq> large_image (c_payload l)
                     \<or> (\<exists>a b. small_text (c_payload c) = Some a
                               \<and> small_text (c_payload l) = Some b \<and> a \<noteq> b)
                     \<or> c_map_name_display c \<noteq> c_map_name_display l)
                    \<longrightarrow> published (tick v st inp) = Some (c_payload c))
                \<and> ((c_payload c)\<lparr>start := start (c_payload l),
                                   large_text := large_text (c_payload l)\<rparr> = c_payload l
                     \<and> c_map_name_display c = c_map_name_display l
                    \<longrightarrow> published (tick v st inp) = None))"
proof (cases lp)
  case None
  with inv have "remembered_values st = ([], [], [], [], [], [])"
    by (simp add: publication_invariant_def)
  moreover have "c_details c \<noteq> []"
    using tick_update_check(4)[OF cv] by (simp add: coherent_def)
  ultimately have "compared_values c \<noteq> remembered_values st"
    by (auto simp add: compared_values_def)
  with tick_update_check(1,2)[OF cv] None show ?thesis by auto
next
  case (Some r')
  with inv obtain l where l: "coherent r' l" "published r' = Some (c_payload l)"
    "remembered_values st = compared_values l" "shown_from st r' l"
    and dm: "VEHICLE_DISPLAY_MAP st = []"
    by (auto simp add: publication_invariant_def)
  note c = tick_update_check[OF cv]
  from tick_vehicle_source[OF dm cv]
  have tc: "a = c_detected_vehicle c
              @ (if c_detected_br c \<noteq> ''N/A'' then '' BR: '' @ c_detected_br c else [])"
    if "small_text (c_payload c) = Some a" for a
    using that by (auto split: if_splits)
  from l(4)
  have tl: "b = c_detected_vehicle l
              @ (if c_detected_br l \<noteq> ''N/A'' then '' BR: '' @ c_detected_br l else [])"
    if "small_text (c_payload l) = Some b" for b
    using that unfolding shown_from_def by (auto split: if_splits)
  have A: "published (tick v st inp) = Some (c_payload c)"
    if "details (c_payload c) \<noteq> details (c_payload l)
        \<or> state (c_payload c) \<noteq> state (c_payload l)
        \<or> large_image (c_payload c) \<noteq> large_image (c_payload l)
        \<or> (\<exists>a b. small_text (c_payload c) = Some a
                  \<and> small_text (c_payload l) = Some b \<and> a \<noteq> b)
        \<or> c_map_name_display c \<noteq> c_map_name_display l"
  proof -
    have "compared_values c \<noteq> compared_values l"
    proof
      assume "compared_values c = compared_values l"
      then have f: "c_details c = c_details l" "c_state c = c_state l"
        "c_detected_vehicle c = c_detected_vehicle l"
        "large_image (c_payload c) = large_image (c_payload l)"
        "c_detected_br c = c_detected_br l" "c_map_name_display c = c_map_name_display l"
        by (simp_all add: compared_values_def)
      have "a = b"
        if "small_text (c_payload c) = Some a" and "small_text (c_payload l) = Some b" for a b
        using tc[OF that(1)] tl[OF that(2)] f(3,5) by simp
      moreover have "details (c_payload c) = details (c_payload l)"
        "state (c_payload c) = state (c_payload l)"
        using c(4) l(1) f(1,2) by (simp_all add: coherent_def)
      ultimately show False using that f(4,6) by blast
    qed
    with c(1,2) l(3) show ?thesis by auto
  qed
  have B: "published (tick v st inp) = None"
    if "(c_payload c)\<lparr>start := start (c_payload l),
                       large_text := large_text (c_payload l)\<rparr> = c_payload l
        \<and> c_map_name_display c = c_map_name_display l"
  proof -
    from that have e: "details (c_payload c) = details (c_payload l)"
      "state (c_payload c) = state (c_payload l)"
      "large_image (c_payload c) = large_image (c_payload l)"
      "small_image (c_payload c) = small_image (c_payload l)"
      "small_text (c_payload c) = small_text (c_payload l)"
      by (metis rpc_payload.select_convs(1) rpc_payload.surjective rpc_payload.update_convs(3,5),
          metis rpc_payload.select_convs(2) rpc_payload.surjective rpc_payload.update_convs(3,5),
          metis rpc_payload.select_convs(4) rpc_payload.surjective rpc_payload.update_convs(3,5),
          metis rpc_payload.select_convs(6) rpc_payload.surjective rpc_payload.update_convs(3,5),
          metis rpc_payload.select_convs(7) rpc_payload.surjective rpc_payload.update_convs(3,5))
    note sv = same_small_same_vehicle[OF dm cv l(1) l(4) e(4) e(5)]
    from that sv c(4) l(1) e have "compared_values c = compared_values l"
      by (auto simp add: coherent_def compared_values_def)
    with c(1) l(3) show ?thesis by auto
  qed
  from l(1) have "computed_view r' = Some l" by (simp add: coherent_def)
  with l(2) A B Some show ?thesis by auto
qed

lemma run_update_check:
  assumes "publication_invariant st lp" and "i < length (run_ticks v st inps)"
    and "computed_view (run_ticks v st inps ! i) = Some c"
  shows "case (case last_publishing (take i (run_ticks v st inps)) of
                 None \<Rightarrow> lp | Some r' \<Rightarrow> Some r') of
           None \<Rightarrow> published (run_ticks v st inps ! i) = Some (c_payload c)
         | Some r' \<Rightarrow>
             (\<exists>l. computed_view r' = Some l \<and> published r' = Some (c_payload l)
                \<and> ((details (c_payload c) \<noteq> details (c_payload l)
                     \<or> state (c_payload c) \<noteq> state (c_payload l)
                     \<or> large_image (c_payload c) \<noteq> large_image (c_payload l)
                     \<or> (\<exists>a b. small_text (c_payload c) = Some a
                               \<and> small_text (c_payload l) = Some b \<and> a \<noteq> b)
                     \<or> c_map_name_display c \<noteq> c_map_name_display l)
                    \<longrightarrow> published (run_ticks v st inps ! i) = Some (c_payload c))
                \<and> ((c_payload c)\<lparr>start := start (c_payload l),
                                   large_text := large_text (c_payload l)\<rparr> = c_payload l
                     \<and> c_map_name_display c = c_map_name_display l
                    \<longrightarrow> published (run_ticks v st inps ! i) = None))"
  using assms
proof (induction inps arbitrary: st lp i)
  case Nil
  then show ?case by simp
next
  case (Cons inp inps)
  let ?r = "tick v st inp"
  let ?rest = "if crashed ?r = None then run_ticks v (next_state ?r) inps else []"
  have rs: "run_ticks v st (inp # inps) = ?r # ?rest" by (simp add: Let_def)
  show ?case
  proof (cases i)
    case 0
    have nth: "run_ticks v st (inp # inps) ! i = ?r" unfolding rs 0 by simp
    have tk: "take i (run_ticks v st (inp # inps)) = []" unfolding 0 by simp
    from Cons.prems(3) have cv: "computed_view ?r = Some c" unfolding nth .
    have lpe: "(case last_publishing (take i (run_ticks v st (inp # inps))) of
                  None \<Rightarrow> lp | Some r' \<Rightarrow> Some r') = lp"
      unfolding tk by simp
    show ?thesis
      unfolding lpe nth by (rule tick_decides[OF Cons.prems(1) cv])
  next
    case (Suc j)
    with Cons.prems(2) have j: "j < length ?rest" unfolding rs by simp
    then have cr: "crashed ?r = None" by (auto split: if_splits)
    then have rest: "?rest = run_ticks v (next_state ?r) inps" by simp
    define lp' where "lp' = (if published ?r \<noteq> None then Some ?r else lp)"
    have inv': "publication_invariant (next_state ?r) lp'"
      unfolding lp'_def by (rule tick_keeps_invariant[OF Cons.prems(1)])
    have j': "j < length (run_ticks v (next_state ?r) inps)" using j rest by simp
    have nth: "run_ticks v st (inp # inps) ! i = run_ticks v (next_state ?r) inps ! j"
      unfolding rs rest Suc by simp
    have cv: "computed_view (run_ticks v (next_state ?r) inps ! j) = Some c"
      using Cons.prems(3) nth by simp
    have tk: "take i (run_ticks v st (inp # inps)) = ?r # take j (run_ticks v (next_state ?r) inps)"
      unfolding rs rest Suc by simp
    have lpe: "(case last_publishing (take i (run_ticks v st (inp # inps))) of
                  None \<Rightarrow> lp | Some r' \<Rightarrow> Some r')
               = (case last_publishing (take j (run_ticks v (next_state ?r) inps)) of
                    None \<Rightarrow> lp' | Some r' \<Rightarrow> Some r')"
      unfolding tk lp'_def by (auto split: option.splits)
    show ?thesis
      unfolding lpe nth by (rule Cons.IH[OF inv' j' cv])
  qed
qed

section \<open>Lemmas about the vehicle cache\<close>

text \<open>
  A record that the cache holds stays as it is through every later tick, and the ticks that
  observe its id take name and rating from it.
\<close>

lemma cached_record_persists:
  assumes "map_of (VEHICLE_NAME_CACHE st) rid = Some cached" and "rid \<noteq> ''unknown_vehicle''"
  shows "\<forall>(inp, r) \<in> set (zip inps (run_ticks v st inps)).
           map_of (VEHICLE_NAME_CACHE (next_state r)) rid = Some cached
           \<and> get_wiki_url_from_id rid \<notin> set (lookups r)
           \<and> (\<forall>k x. map_of (VEHICLE_NAME_CACHE st) k = Some x
                 \<longrightarrow> map_of (VEHICLE_NAME_CACHE (next_state r)) k = Some x)
           \<and> (\<forall>uid. get_raw_vehicle_id (state_data inp) (indicators_data inp) = Inr (rid, uid)
                 \<longrightarrow> lookups r = []
                     \<and> vehicle r =
                         Some (case map_of (VEHICLE_DISPLAY_MAP st) rid of
                                 Some override \<Rightarrow> override | None \<Rightarrow> fst cached,
                               snd cached))"
  using assms
proof (induction inps arbitrary: st)
  case Nil
  then show ?case by simp
next
  case (Cons inp inps)
  let ?r = "tick v st inp"
  have a: "map_of (VEHICLE_NAME_CACHE (next_state ?r)) rid = Some cached"
    by (rule tick_cache_grows[OF Cons.prems(1)])
  have b: "get_wiki_url_from_id rid \<notin> set (lookups ?r)"
  proof
    assume "get_wiki_url_from_id rid \<in> set (lookups ?r)"
    from tick_lookups[OF this] obtain rid' where
      "get_wiki_url_from_id rid = get_wiki_url_from_id rid'"
      "map_of (VEHICLE_NAME_CACHE st) rid' = None" by blast
    with wiki_url_inj[of rid rid'] Cons.prems(1) show False by simp
  qed
  have c: "\<forall>k x. map_of (VEHICLE_NAME_CACHE st) k = Some x
             \<longrightarrow> map_of (VEHICLE_NAME_CACHE (next_state ?r)) k = Some x"
    using tick_cache_grows by blast
  have d: "lookups ?r = []
           \<and> vehicle ?r =
               Some (case map_of (VEHICLE_DISPLAY_MAP st) rid of
                       Some override \<Rightarrow> override | None \<Rightarrow> fst cached,
                     snd cached)"
    if "get_raw_vehicle_id (state_data inp) (indicators_data inp) = Inr (rid, uid)" for uid
    using tick_observes[OF that resolve_cached[OF Cons.prems(1) Cons.prems(2)], of v]
    by (simp split: option.splits)
  note IH = Cons.IH[OF a Cons.prems(2), unfolded tick_display_map]
  have tail: "\<forall>(inp', r) \<in> set (zip inps (run_ticks v (next_state ?r) inps)).
           map_of (VEHICLE_NAME_CACHE (next_state r)) rid = Some cached
           \<and> get_wiki_url_from_id rid \<notin> set (lookups r)
           \<and> (\<forall>k x. map_of (VEHICLE_NAME_CACHE st) k = Some x
                 \<longrightarrow> map_of (VEHICLE_NAME_CACHE (next_state r)) k = Some x)
           \<and> (\<forall>uid. get_raw_vehicle_id (state_data inp') (indicators_data inp') = Inr (rid, uid)
                 \<longrightarrow> lookups r = []
                     \<and> vehicle r =
                         Some (case map_of (VEHICLE_DISPLAY_MAP st) rid of
                                 Some override \<Rightarrow> override | None \<Rightarrow> fst cached,
                               snd cached))"
    using IH c by fastforce
  show ?case
  proof (cases "crashed ?r = None")
    case True
    then have "zip (inp # inps) (run_ticks v st (inp # inps))
                 = (inp, ?r) # zip inps (run_ticks v (next_state ?r) inps)"
      by (simp add: Let_def)
    then show ?thesis using a b c d tail by auto
  next
    case False
    then have "zip (inp # inps) (run_ticks v st (inp # inps)) = [(inp, ?r)]"
      by (auto simp add: Let_def)
    then show ?thesis using a b c d by auto
  qed
qed

section \<open>Properties of the polling loop\<close>

text \<open>
  Claim C1, as amended. Take a run of the loop from its initial state and a tick of it that
  reaches the update check. If no earlier tick called \<open>RPC.update\<close>, the tick calls it with
  the payload it has computed. Otherwise let \<open>l\<close> be what the last tick that called it had
  computed; its payload is the one that was sent. If the fresh payload differs from that one
  in the headline, in the subline or in the large image key, or both carry a small image
  text and the texts differ, or the map display name differs from that of \<open>l\<close>, the tick
  calls \<open>RPC.update\<close> with the fresh payload. If the fresh payload equals the sent one in
  every field other than the session start and the large image text, and the map display
  name is that of \<open>l\<close>, the tick makes no call.
\<close>

theorem publish_when_shown_values_change:
  assumes "i < length (run_ticks v (initial_state hashes t0) inps)"
    and "computed_view (run_ticks v (initial_state hashes t0) inps ! i) = Some c"
  shows "case last_publishing (take i (run_ticks v (initial_state hashes t0) inps)) of
           None \<Rightarrow>
             published (run_ticks v (initial_state hashes t0) inps ! i) = Some (c_payload c)
         | Some r' \<Rightarrow>
             (\<exists>l. computed_view r' = Some l \<and> published r' = Some (c_payload l)
                \<and> ((details (c_payload c) \<noteq> details (c_payload l)
                     \<or> state (c_payload c) \<noteq> state (c_payload l)
                     \<or> large_image (c_payload c) \<noteq> large_image (c_payload l)
                     \<or> (\<exists>a b. small_text (c_payload c) = Some a
                               \<and> small_text (c_payload l) = Some b \<and> a \<noteq> b)
                     \<or> c_map_name_display c \<noteq> c_map_name_display l)
                    \<longrightarrow> published (run_ticks v (initial_state hashes t0) inps ! i)
                          = Some (c_payload c))
                \<and> ((c_payload c)\<lparr>start := start (c_payload l),
                                   large_text := large_text (c_payload l)\<rparr> = c_payload l
                     \<and> c_map_name_display c = c_map_name_display l
                    \<longrightarrow> published (run_ticks v (initial_state hashes t0) inps ! i) = None))"
proof -
  have inv: "publication_invariant (initial_state hashes t0) None"
    by (simp add: publication_invariant_def remembered_values_def initial_state_def)
  have e: "(case last_publishing (take i (run_ticks v (initial_state hashes t0) inps)) of
              None \<Rightarrow> None | Some r' \<Rightarrow> Some r')
           = last_publishing (take i (run_ticks v (initial_state hashes t0) inps))"
    by (simp split: option.splits)
  from run_update_check[OF inv assms] show ?thesis unfolding e .
qed

theorem publish_when_shown_values_change_witness:
  "published (run_ticks Cli (initial_state [(HANGAR_HASH, ''Hangar'')] 1000)
               [hangar_input 1005, hangar_input 1010] ! 0) = Some (hangar_payload 1005)
   \<and> published (run_ticks Cli (initial_state [(HANGAR_HASH, ''Hangar'')] 1000)
                 [hangar_input 1005, hangar_input 1010] ! Suc 0) = None
   \<and> published (run_ticks Cli (initial_state [(HANGAR_HASH, ''Hangar'')] 1000)
                 [hangar_input 1005, t34_input] ! Suc 0)
       = map_option c_payload
           (computed_view (run_ticks Cli (initial_state [(HANGAR_HASH, ''Hangar'')] 1000)
                             [hangar_input 1005, t34_input] ! Suc 0))
   \<and> map_option details
        (published (run_ticks Cli (initial_state [(HANGAR_HASH, ''Hangar'')] 1000)
                      [hangar_input 1005, t34_input] ! Suc 0))
       = Some ''In Ground Battle on Not in Mission''"
proof -
  define rs where "rs = run_ticks Cli (initial_state [(HANGAR_HASH, ''Hangar'')] 1000)
                          [hangar_input 1005, hangar_input 1010]"
  define rs' where "rs' = run_ticks Cli (initial_state [(HANGAR_HASH, ''Hangar'')] 1000)
                           [hangar_input 1005, t34_input]"
  let ?c = "\<lambda>t. \<lparr>c_details = ''Idle in Hangar'', c_state = ''Inspecting F3D 1'',
                  c_detected_vehicle = ''F3D 1'', c_detected_br = ''N/A'',
                  c_map_name_display = ''Hangar'', c_payload = hangar_payload t\<rparr>"
  have len: "0 < length rs" "Suc 0 < length rs" unfolding rs_def by code_simp+
  have cv: "computed_view (rs ! 0) = Some (?c 1005)"
    "computed_view (rs ! Suc 0) = Some (?c 1010)"
    unfolding rs_def by code_simp+
  have lp: "last_publishing (take 0 rs) = None"
    "last_publishing (take (Suc 0) rs) = Some (rs ! 0)"
    unfolding rs_def by code_simp+
  note first = publish_when_shown_values_change[OF len(1)[unfolded rs_def] cv(1)[unfolded rs_def],
      folded rs_def, unfolded lp(1) option.case]
  note th = publish_when_shown_values_change[OF len(2)[unfolded rs_def] cv(2)[unfolded rs_def],
      folded rs_def, unfolded lp(2) option.case]
  from th obtain l where L: "computed_view (rs ! 0) = Some l"
    and B: "(c_payload (?c 1010))\<lparr>start := start (c_payload l),
                                   large_text := large_text (c_payload l)\<rparr> = c_payload l
            \<and> c_map_name_display (?c 1010) = c_map_name_display l
            \<longrightarrow> published (rs ! Suc 0) = None"
    by blast
  from L cv(1) have l: "l = ?c 1005" by simp
  have second: "published (rs ! Suc 0) = None"
    using B unfolding l by (simp add: hangar_payload_def)
  have len': "Suc 0 < length rs'" unfolding rs'_def by code_simp
  have cv0': "computed_view (rs' ! 0) = Some (?c 1005)" unfolding rs'_def by code_simp
  have "map_option (details \<circ> c_payload) (computed_view (rs' ! Suc 0))
          = Some ''In Ground Battle on Not in Mission''"
    unfolding rs'_def by code_simp
  then obtain c where cv': "computed_view (rs' ! Suc 0) = Some c"
    and dc: "details (c_payload c) = ''In Ground Battle on Not in Mission''"
    by auto
  have lp': "last_publishing (take (Suc 0) rs') = Some (rs' ! 0)" unfolding rs'_def by code_simp
  note th' = publish_when_shown_values_change[OF len'[unfolded rs'_def] cv'[unfolded rs'_def],
      folded rs'_def, unfolded lp' option.case]
  from th' obtain l' where L': "computed_view (rs' ! 0) = Some l'"
    and A: "details (c_payload c) \<noteq> details (c_payload l')
            \<longrightarrow> published (rs' ! Suc 0) = Some (c_payload c)"
    by blast
  from L' cv0' have l': "l' = ?c 1005" by simp
  have "published (rs' ! Suc 0) = Some (c_payload c)"
    using A dc unfolding l' by (simp add: hangar_payload_def)
  with cv' dc have third: "published (rs' ! Suc 0)
                             = map_option c_payload (computed_view (rs' ! Suc 0))"
    "map_option details (published (rs' ! Suc 0)) = Some ''In Ground Battle on Not in Mission''"
    by simp_all
  from first second third show ?thesis unfolding rs_def rs'_def by simp
qed

text \<open>
  Claim C1 as stated fails, in four ways. (1) The table maps the hangar fingerprint to the
  name \<open>Hangar\<close>, so each tick resets the session start to the clock: the second tick
  computes a payload that differs from the sent one in the session start and makes no call,
  with both entry points. (2) Between two ticks in the hangar the map image becomes one
  that the table knows by name: the second tick computes the very payload that was sent and
  sends it again. (3) With no state data, the mission starts while the table knows the map
  as \<open>unknown_map\<close>: the payload of the second tick differs from the sent one in the large
  image text and the tick makes no call. (4) The state names another vehicle for which the
  wiki gives the same name and rating: the payload of the second tick differs from the sent
  one in the small image key and the tick makes no call.
\<close>

theorem publish_counterexample:
  "map (\<lambda>r. (published r, map_option c_payload (computed_view r)))
     (run_ticks Cli (initial_state [(HANGAR_HASH, ''Hangar'')] 1000)
        [hangar_input 1005, hangar_input 1010])
     = [(Some (hangar_payload 1005), Some (hangar_payload 1005)),
        (None, Some (hangar_payload 1010))]
   \<and> map (\<lambda>r. (published r, map_option c_payload (computed_view r)))
     (run_ticks Gui (initial_state [(HANGAR_HASH, ''Hangar'')] 1000)
        [hangar_input 1005, hangar_input 1010])
     = [(Some (hangar_payload 1005), Some (hangar_payload 1005)),
        (None, Some (hangar_payload 1010))]
   \<and> hangar_payload 1010 \<noteq> hangar_payload 1005
   \<and> map (\<lambda>r. (published r, map_option c_map_name_display (computed_view r)))
     (run_ticks Cli (initial_state [(PORT_HASH, ''port_novorossiysk'')] 1000)
        [(hangar_input 1005)\<lparr>sha256_hash := None\<rparr>,
         (hangar_input 1010)\<lparr>sha256_hash := Some PORT_HASH\<rparr>])
     = [(Some (hangar_payload 1000), Some ''Not in Mission''),
        (Some (hangar_payload 1000), Some ''Port Novorossiysk'')]
   \<and> map (\<lambda>r. (published r, map_option c_payload (computed_view r)))
     (run_ticks Cli (initial_state [(PORT_HASH, ''unknown_map'')] 1000)
        [(offline_input None)\<lparr>sha256_hash := Some PORT_HASH\<rparr>,
         (offline_input (Some [(''status'', JStr ''running'')]))
           \<lparr>sha256_hash := Some PORT_HASH\<rparr>])
     = [(Some \<lparr>details = ''Offline'', state = ''Waiting for game...'', start = 1000,
                large_image = ''war_thunder_logo'', large_text = ''War Thunder'',
                small_image = None, small_text = None\<rparr>,
         Some \<lparr>details = ''Offline'', state = ''Waiting for game...'', start = 1000,
                large_image = ''war_thunder_logo'', large_text = ''War Thunder'',
                small_image = None, small_text = None\<rparr>),
        (None,
         Some \<lparr>details = ''Offline'', state = ''Waiting for game...'', start = 1000,
                large_image = ''war_thunder_logo'', large_text = ''In Battle'',
                small_image = None, small_text = None\<rparr>)]
   \<and> map (\<lambda>r. (published r, map_option c_payload (computed_view r)))
     (run_ticks Cli (initial_state [] 1000)
        [spitfire_input ''spitfire_mk1'', spitfire_input ''spitfire_mk2a''])
     = [(Some \<lparr>details = ''Idle in Hangar'', state = ''Inspecting Spitfire'', start = 1000,
                large_image = ''war_thunder_logo'', large_text = ''War Thunder'',
                small_image =
                  Some ''https://static.encyclopedia.warthunder.com/images/spitfire_mk1.png'',
                small_text = Some ''Spitfire BR: 3.7''\<rparr>,
         Some \<lparr>details = ''Idle in Hangar'', state = ''Inspecting Spitfire'', start = 1000,
                large_image = ''war_thunder_logo'', large_text = ''War Thunder'',
                small_image =
                  Some ''https://static.encyclopedia.warthunder.com/images/spitfire_mk1.png'',
                small_text = Some ''Spitfire BR: 3.7''\<rparr>),
        (None,
         Some \<lparr>details = ''Idle in Hangar'', state = ''Inspecting Spitfire'', start = 1000,
                large_image = ''war_thunder_logo'', large_text = ''War Thunder'',
                small_image =
                  Some ''https://static.encyclopedia.warthunder.com/images/spitfire_mk2a.png'',
                small_text = Some ''Spitfire BR: 3.7''\<rparr>)]"
  by code_simp

text \<open>
  Claim C2 fails in the code. The scraper fails for \<open>t_34\<close> on the first tick and the id
  stays out of the cache; no other id is observed, and the second tick gives the same wiki
  URL to the scraper again. The guard of the scrape branch,
  \<open>raw_vehicle_id != LAST_VEHICLE_ID or raw_vehicle_id not in VEHICLE_NAME_CACHE\<close>, is
  reached only for an id that is not in the cache, so that \<open>LAST_VEHICLE_ID\<close> decides
  nothing. On both ticks the name is the fallback name and the rating is \<open>N/A\<close>.
\<close>

theorem failed_lookup_repeated_on_next_tick:
  "get_vehicle_name t34_input ''https://wiki.warthunder.com/unit/t_34'' = (None, None)
   \<and> map lookups (run_ticks Cli (initial_state [] 1000) [t34_input, t34_input])
     = [[''https://wiki.warthunder.com/unit/t_34''], [''https://wiki.warthunder.com/unit/t_34'']]
   \<and> map lookups (run_ticks Gui (initial_state [] 1000) [t34_input, t34_input])
     = [[''https://wiki.warthunder.com/unit/t_34''], [''https://wiki.warthunder.com/unit/t_34'']]
   \<and> map (\<lambda>r. (LAST_VEHICLE_ID (next_state r), VEHICLE_NAME_CACHE (next_state r)))
        (run_ticks Cli (initial_state [] 1000) [t34_input, t34_input])
     = [(Some ''t_34'', []), (Some ''t_34'', [])]
   \<and> map vehicle (run_ticks Cli (initial_state [] 1000) [t34_input, t34_input])
     = [Some (''T 34'', ''N/A''), Some (''T 34'', ''N/A'')]"
  by code_simp

text \<open>
  Claim C4. A tick observes a vehicle id (other than the sentinel) that the cache does not
  hold, and the scraper answers with a name. Then the tick gives the id's wiki URL to the
  scraper, shows the scraped name (or the manual override) with the scraped rating (\<open>N/A\<close>
  when the scraper found none), and appends the record to the cache. After every later tick
  of the run the cache still holds that same record, and every entry the cache had is still
  there unchanged; no later tick gives the id's wiki URL to the scraper; and every later
  tick that observes the id asks the scraper for nothing and shows the same name and
  rating.
\<close>

theorem resolved_vehicle_stays_cached:
  assumes "get_raw_vehicle_id (state_data inp0) (indicators_data inp0) = Inr (rid, uid0)"
    and "rid \<noteq> ''unknown_vehicle''"
    and "map_of (VEHICLE_NAME_CACHE st) rid = None"
    and "get_vehicle_name inp0 (get_wiki_url_from_id rid) = (Some n, b)" and "n \<noteq> []"
  shows "lookups (tick v st inp0) = [get_wiki_url_from_id rid]
         \<and> vehicle (tick v st inp0) =
             Some (case map_of (VEHICLE_DISPLAY_MAP st) rid of
                     Some override \<Rightarrow> override | None \<Rightarrow> n,
                   if str_opt_truthy b then the b else ''N/A'')
         \<and> VEHICLE_NAME_CACHE (next_state (tick v st inp0)) =
             VEHICLE_NAME_CACHE st @ [(rid, n, if str_opt_truthy b then the b else ''N/A'')]
         \<and> (\<forall>(inp, r) \<in> set (zip inps (tl (run_ticks v st (inp0 # inps)))).
               map_of (VEHICLE_NAME_CACHE (next_state r)) rid
                 = Some (n, if str_opt_truthy b then the b else ''N/A'')
               \<and> get_wiki_url_from_id rid \<notin> set (lookups r)
               \<and> (\<forall>k x. map_of (VEHICLE_NAME_CACHE (next_state (tick v st inp0))) k = Some x
                     \<longrightarrow> map_of (VEHICLE_NAME_CACHE (next_state r)) k = Some x)
               \<and> (\<forall>uid. get_raw_vehicle_id (state_data inp) (indicators_data inp)
                           = Inr (rid, uid)
                     \<longrightarrow> lookups r = []
                         \<and> vehicle r =
                             Some (case map_of (VEHICLE_DISPLAY_MAP st) rid of
                                     Some override \<Rightarrow> override | None \<Rightarrow> n,
                                   if str_opt_truthy b then the b else ''N/A'')))"
proof -
  let ?br = "if str_opt_truthy b then the b else ''N/A''"
  let ?r0 = "tick v st inp0"
  have br: "(if str_opt_truthy b then (case b of Some x \<Rightarrow> x | None \<Rightarrow> []) else ''N/A'') = ?br"
    by (cases b) simp_all
  note rv = resolve_scraped[where sc = "get_vehicle_name inp0",
      OF assms(3) assms(2) assms(4) assms(5), unfolded br]
  from tick_observes[OF assms(1) rv, of v]
  have head: "lookups ?r0 = [get_wiki_url_from_id rid]"
    "vehicle ?r0 = Some (case map_of (VEHICLE_DISPLAY_MAP st) rid of
                           Some override \<Rightarrow> override | None \<Rightarrow> n, ?br)"
    "VEHICLE_NAME_CACHE (next_state ?r0) = dict_set rid (n, ?br) (VEHICLE_NAME_CACHE st)"
    by (simp_all split: option.splits)
  have cache: "VEHICLE_NAME_CACHE (next_state ?r0) = VEHICLE_NAME_CACHE st @ [(rid, n, ?br)]"
    unfolding head(3) by (rule dict_set_fresh[OF assms(3)])
  have held: "map_of (VEHICLE_NAME_CACHE (next_state ?r0)) rid = Some (n, ?br)"
    unfolding head(3) by (simp add: map_of_dict_set)
  note later = cached_record_persists[OF held assms(2), of inps v,
      unfolded tick_display_map fst_conv snd_conv]
  have rest: "\<forall>(inp, r) \<in> set (zip inps (tl (run_ticks v st (inp0 # inps)))).
               map_of (VEHICLE_NAME_CACHE (next_state r)) rid = Some (n, ?br)
               \<and> get_wiki_url_from_id rid \<notin> set (lookups r)
               \<and> (\<forall>k x. map_of (VEHICLE_NAME_CACHE (next_state ?r0)) k = Some x
                     \<longrightarrow> map_of (VEHICLE_NAME_CACHE (next_state r)) k = Some x)
               \<and> (\<forall>uid. get_raw_vehicle_id (state_data inp) (indicators_data inp)
                           = Inr (rid, uid)
                     \<longrightarrow> lookups r = []
                         \<and> vehicle r =
                             Some (case map_of (VEHICLE_DISPLAY_MAP st) rid of
                                     Some override \<Rightarrow> override | None \<Rightarrow> n, ?br))"
  proof (cases "crashed ?r0 = None")
    case True
    then have t: "tl (run_ticks v st (inp0 # inps)) = run_ticks v (next_state ?r0) inps"
      by (simp add: Let_def)
    show ?thesis unfolding t by (rule later)
  next
    case False
    then have t: "tl (run_ticks v st (inp0 # inps)) = []" by (auto simp add: Let_def)
    show ?thesis unfolding t by simp
  qed
  from head(1,2) cache rest show ?thesis by blast
qed

theorem resolved_vehicle_stays_cached_witness:
  "lookups (tick Cli (initial_state [] 1000) t34_scraped_input)
     = [''https://wiki.warthunder.com/unit/t_34'']
   \<and> VEHICLE_NAME_CACHE (next_state (tick Cli (initial_state [] 1000) t34_scraped_input))
       = [(''t_34'', ''T-34'', ''3.7'')]
   \<and> list_all (\<lambda>r. lookups r = [] \<and> vehicle r = Some (''T-34'', ''3.7'')
                   \<and> map_of (VEHICLE_NAME_CACHE (next_state r)) ''t_34''
                       = Some (''T-34'', ''3.7''))
       (tl (run_ticks Cli (initial_state [] 1000) [t34_scraped_input, t34_input, t34_input]))
   \<and> length (tl (run_ticks Cli (initial_state [] 1000)
                    [t34_scraped_input, t34_input, t34_input])) = 2"
proof -
  have g0: "get_raw_vehicle_id (state_data t34_scraped_input) (indicators_data t34_scraped_input)
             = Inr (''t_34'', ''tankmodels/t_34'')"
    by code_simp
  have g: "get_raw_vehicle_id (state_data t34_input) (indicators_data t34_input)
             = Inr (''t_34'', ''tankmodels/t_34'')"
    by code_simp
  have nu: "''t_34'' \<noteq> ''unknown_vehicle''" by simp
  have ca: "map_of (VEHICLE_NAME_CACHE (initial_state [] 1000)) ''t_34'' = None"
    by (simp add: initial_state_def)
  have sc: "get_vehicle_name t34_scraped_input (get_wiki_url_from_id ''t_34'')
              = (Some ''T-34'', Some ''3.7'')"
    by (simp add: t34_scraped_input_def)
  have ne: "''T-34'' \<noteq> []" by simp
  have w: "get_wiki_url_from_id ''t_34'' = ''https://wiki.warthunder.com/unit/t_34''"
    by (simp add: get_wiki_url_from_id_def)
  have dm: "VEHICLE_DISPLAY_MAP (initial_state [] 1000) = []"
    "VEHICLE_NAME_CACHE (initial_state [] 1000) = []"
    by (simp_all add: initial_state_def)
  define rs where
    "rs = tl (run_ticks Cli (initial_state [] 1000) [t34_scraped_input, t34_input, t34_input])"
  have l: "length rs = 2" unfolding rs_def by code_simp
  then obtain r1 r2 where R: "rs = [r1, r2]"
    by (auto simp add: length_Suc_conv numeral_2_eq_2)
  note th = resolved_vehicle_stays_cached[OF g0 nu ca sc ne, of Cli "[t34_input, t34_input]",
      folded rs_def, unfolded R w dm]
  have "lookups (tick Cli (initial_state [] 1000) t34_scraped_input)
          = [''https://wiki.warthunder.com/unit/t_34'']
        \<and> VEHICLE_NAME_CACHE (next_state (tick Cli (initial_state [] 1000) t34_scraped_input))
            = [(''t_34'', ''T-34'', ''3.7'')]
        \<and> list_all (\<lambda>r. lookups r = [] \<and> vehicle r = Some (''T-34'', ''3.7'')
                        \<and> map_of (VEHICLE_NAME_CACHE (next_state r)) ''t_34''
                            = Some (''T-34'', ''3.7''))
            rs
        \<and> length rs = 2"
    using th g l unfolding R by simp
  then show ?thesis unfolding rs_def .
qed



text \<open>
  Claim C3, as amended. When the fetched fingerprint contains the hangar fingerprint and the
  table maps it to the value \<open>Not in Mission\<close>, a tick that reaches the update check has
  the map name \<open>Hangar\<close> and resets the session start to the clock; with state data present
  the headline and subline are those of the hangar branch (\<open>Idle in Hangar\<close> with the
  inspected vehicle, or \<open>In Main Menu/Hangar\<close> when no vehicle is known).
\<close>

theorem hangar_special_case:
  assumes "sha256_hash inp = Some h" and "py_in HANGAR_HASH h"
    and "map_of (GLOBAL_MAP_HASHES st) h = Some ''Not in Mission''"
    and "computed_view (tick v st inp) = Some c"
  shows "c_map_name_display c = ''Hangar''
         \<and> start_time (next_state (tick v st inp)) = now inp
         \<and> start (c_payload c) = now inp
         \<and> (c_details c, c_state c) =
             (if \<not> dict_truthy (state_data inp) then (''Offline'', ''Waiting for game...'')
              else if c_detected_vehicle c \<noteq> ''Unknown Vehicle''
              then (''Idle in Hangar'', ''Inspecting '' @ c_detected_vehicle c)
              else (''In Main Menu/Hangar'', ''Waiting for vehicle selection''))"
proof (cases rule: tick_cases[where inp = inp and v = v and st = st])
  case (id_error e)
  with assms(4) show ?thesis by simp
next
  case (stepped rid uid name dbr st1 urls mv hs added)
  have im: "mv = ''Not in Mission''"
    using stepped(3) assms(1) identify_map_labelled[OF py_in_hash_nonempty[OF assms(2)] assms(3)]
    by simp
  let ?r = "\<lparr>next_state = st1\<lparr>GLOBAL_MAP_HASHES := hs\<rparr>, lookups = urls,
            vehicle = map_option (\<lambda>n. (n, dbr)) name,
            saved = (if added then Some hs else None), map_value = Some mv,
            computed_view = None, published = None, crashed = None\<rparr>"
  from assms(4) stepped(4) obtain dv where name: "name = Some dv"
    by (cases name) (simp_all add: present_def)
  define st3 where "st3 = (next_state ?r)\<lparr>start_time := now inp\<rparr>"
  define ds where "ds = (if \<not> dict_truthy (state_data inp) then (''Offline'', ''Waiting for game...'')
          else if dv \<noteq> ''Unknown Vehicle'' then (''Idle in Hangar'', ''Inspecting '' @ dv)
          else (''In Main Menu/Hangar'', ''Waiting for vehicle selection''))"
  define c' where "c' = build_computed v (is_in_mission (mission_data inp)) rid
                       dv dbr ''Not in Mission'' ''Hangar'' (fst ds) (snd ds) (now inp)"
  have gs: "get_status_message (state_data inp) (mission_data inp) dv ''Hangar'' uid = Inr ds"
    unfolding ds_def by (rule hangar_status)
  have pr: "present v inp ?r rid uid name dbr mv = update_rpc ?r st3 c'"
    unfolding im present_def name
    using map_display_hangar[OF assms(2)] assms(1) gs
    by (cases ds) (simp add: st3_def c'_def Let_def)
  have t: "tick v st inp = update_rpc ?r st3 c'"
    using stepped(4) pr by simp
  with assms(4) have cc: "c = c'" by (simp add: update_rpc_simps)
  have s: "start_time (next_state (tick v st inp)) = now inp"
    unfolding t by (simp add: update_rpc_simps st3_def)
  show ?thesis
    using s unfolding cc c'_def ds_def by (simp add: build_computed_simps)
qed

theorem hangar_special_case_witness:
  "map_option c_map_name_display
     (computed_view (tick Cli (initial_state [(HANGAR_HASH, ''Not in Mission'')] 1000)
        (hangar_input 1005))) = Some ''Hangar''
   \<and> start_time (next_state (tick Cli (initial_state [(HANGAR_HASH, ''Not in Mission'')] 1000)
        (hangar_input 1005))) = 1005"
proof -
  have a: "sha256_hash (hangar_input 1005) = Some HANGAR_HASH" by (simp add: hangar_input_def)
  have b: "py_in HANGAR_HASH HANGAR_HASH" by code_simp
  have c: "map_of (GLOBAL_MAP_HASHES (initial_state [(HANGAR_HASH, ''Not in Mission'')] 1000))
             HANGAR_HASH = Some ''Not in Mission''"
    by (simp add: initial_state_def)
  have d: "computed_view (tick Cli (initial_state [(HANGAR_HASH, ''Not in Mission'')] 1000)
        (hangar_input 1005))
      = Some \<lparr>c_details = ''Idle in Hangar'', c_state = ''Inspecting F3D 1'',
                    c_detected_vehicle = ''F3D 1'', c_detected_br = ''N/A'',
                    c_map_name_display = ''Hangar'', c_payload = hangar_payload 1005\<rparr>"
    by code_simp
  have n: "now (hangar_input 1005) = 1005" by (simp add: hangar_input_def)
  show ?thesis
    using hangar_special_case[OF a b c d] n unfolding d by simp
qed

text \<open>
  Claim C3 as stated fails. From a table without the hangar fingerprint, a tick that
  fetches the hangar fingerprint registers it with the placeholder URL: the map name is
  \<open>Unknown Map (Upload Pending)\<close>, not \<open>Hangar\<close>, and the session start is not reset.
\<close>

theorem hangar_special_case_counterexample:
  "sha256_hash (hangar_input 1005) = Some HANGAR_HASH
   \<and> map_value (tick Cli (initial_state [] 1000) (hangar_input 1005)) = Some auto_generated_url
   \<and> map_option c_map_name_display
       (computed_view (tick Cli (initial_state [] 1000) (hangar_input 1005)))
       = Some ''Unknown Map (Upload Pending)''
   \<and> start_time (next_state (tick Cli (initial_state [] 1000) (hangar_input 1005))) = 1000
   \<and> GLOBAL_MAP_HASHES (next_state (tick Cli (initial_state [] 1000) (hangar_input 1005)))
       = [(HANGAR_HASH, auto_generated_url)]"
  by code_simp

end
